theory Spec2Isabelle
  imports Main
begin

section \<open>The page-conversion worker of PDFtoImage.py\<close>

text \<open>
  The worker is the class \<open>PdfProcessingThread\<close>. Its method \<open>run\<close> talks to the
  file system, to the PDF library (fitz), to the imaging library (PIL) and to the thread
  that sets the cancellation flag. Everything those collaborators answer is collected in
  one record, the environment of a run; \<open>run\<close> is then a function of the worker and the
  environment, and it returns the signals emitted (in order), the calls of
  \<open>pil_image.save\<close> (in order) and the exception that left \<open>run\<close>, if one did.

  Strings are lists of code points below 256. Signal emission is taken to succeed; the
  release of the document handle in the \<open>finally\<close> block emits no signal and is
  left out.
\<close>

subsection \<open>Python text helpers\<close>

text \<open>\<open>str(n)\<close> for a non-negative integer: its decimal digits.\<close>

definition digit_char :: "nat \<Rightarrow> char" where
  "digit_char d = ''0123456789'' ! d"

fun str_of_nat :: "nat \<Rightarrow> string" where
  "str_of_nat n =
     (if n < 10 then [digit_char n]
      else str_of_nat (n div 10) @ [digit_char (n mod 10)])"

declare str_of_nat.simps [simp del]

text \<open>
  \<open>str.lower()\<close> on code points below 256: the letters A to Z and the upper-case
  letters of Latin-1 (U+00C0 to U+00DE without the multiplication sign U+00D7) move up
  by 32, every other code point stays.
\<close>

definition is_upper :: "char \<Rightarrow> bool" where
  "is_upper c =
     (let n = (of_char c :: nat)
      in (65 \<le> n \<and> n \<le> 90) \<or> (192 \<le> n \<and> n \<le> 222 \<and> n \<noteq> 215))"

definition lower_char :: "char \<Rightarrow> char" where
  "lower_char c = (if is_upper c then char_of ((of_char c :: nat) + 32) else c)"

definition lower :: "string \<Rightarrow> string" where
  "lower s = map lower_char s"

definition newline :: string where
  "newline = [char_of (10 :: nat)]"

subsection \<open>Data\<close>

text \<open>
  An exception of class \<open>Exception\<close>: either an \<open>OSError\<close> or an exception of
  another class; the string is what \<open>str(e)\<close> gives.
\<close>

datatype exn = OSError string | OtherException string

fun exn_str :: "exn \<Rightarrow> string" where
  "exn_str (OSError t) = t"
| "exn_str (OtherException t) = t"

text \<open>The three signals of the worker.\<close>

datatype event =
    PageCountKnown nat  \<comment> \<open>\<open>total_pages_known\<close>\<close>
  | ProgressTick nat  \<comment> \<open>\<open>progress_update\<close>\<close>
  | Finished string bool "string list"  \<comment> \<open>\<open>finished_conversion\<close>: message, success, page_save_errors\<close>

record pixmap =
  pix_alpha :: bool
  pix_width :: nat
  pix_height :: nat

record image =
  img_mode :: string
  img_size :: "nat \<times> nat"

text \<open>\<open>os.path.join(directory, filename)\<close>, kept as the pair of its arguments.\<close>

record file_path =
  fp_dir :: string
  fp_name :: string

text \<open>One call of \<open>pil_image.save\<close>: the path, the image, and whether it returned.\<close>

record save_call =
  sc_path :: file_path
  sc_image :: image
  sc_ok :: bool

text \<open>The fields \<open>__init__\<close> sets, the cancellation flag apart (it is in the environment).\<close>

record worker =
  input_pdf_path :: string
  output_directory :: string
  dpi :: int
  image_format :: string

definition init_worker :: "string \<Rightarrow> string \<Rightarrow> int \<Rightarrow> string \<Rightarrow> worker" where
  "init_worker input_path output_dir d fmt =
     \<lparr>input_pdf_path = input_path, output_directory = output_dir, dpi = d,
      image_format = lower fmt\<rparr>"

text \<open>
  The environment of one run.
  \<^item> \<open>path_exists\<close>: the answer of \<open>os.path.exists(input_pdf_path)\<close>.
  \<^item> \<open>makedirs\<close>: the exception \<open>os.makedirs\<close> raises, if any.
  \<^item> \<open>fitz_open\<close>: the exception raised by \<open>fitz.open\<close> or \<open>len(doc)\<close>, or the
    page count.
  \<^item> \<open>interruption_requested n\<close>: the value of \<open>_is_interruption_requested\<close> at the
    read number \<open>n\<close> of the run, counted from 0 in program order. The loop reads the
    flag once per iteration, so the read before page \<open>i\<close> is read number \<open>i\<close>.
  \<^item> \<open>get_pixmap i\<close>: what \<open>doc.load_page(i)\<close> followed by \<open>page.get_pixmap\<close> gives.
  \<^item> \<open>frombytes_exn i\<close>, \<open>convert_exn i\<close>: the exception \<open>Image.frombytes\<close> and
    \<open>pil_image.convert\<close> raise on page \<open>i\<close>, if any.
  \<^item> \<open>save i\<close>: the exception \<open>pil_image.save\<close> raises on page \<open>i\<close>, if any.
  \<^item> \<open>print_exn i\<close>: the exception the console \<open>print\<close> of line 78 raises
    when it logs the failed save of page \<open>i\<close>, if any.
\<close>

record env =
  path_exists :: bool
  makedirs :: "exn option"
  fitz_open :: "exn + nat"
  interruption_requested :: "nat \<Rightarrow> bool"
  get_pixmap :: "nat \<Rightarrow> exn + pixmap"
  frombytes_exn :: "nat \<Rightarrow> exn option"
  convert_exn :: "nat \<Rightarrow> exn option"
  save :: "nat \<Rightarrow> exn option"
  print_exn :: "nat \<Rightarrow> exn option"

text \<open>The local variables of \<open>run\<close> inside the page loop, and the effects so far.\<close>

record loop_state =
  converted_count :: nat
  page_save_errors :: "string list"
  events :: "event list"
  saves :: "save_call list"

text \<open>What a run leaves behind.\<close>

record outcome =
  out_events :: "event list"
  out_saves :: "save_call list"
  out_raised :: "exn option"

subsection \<open>The imaging library\<close>

text \<open>
  \<open>Image.frombytes(mode, [w, h], samples)\<close> gives an image in the mode asked for;
  \<open>image.convert(mode)\<close> gives a copy in the mode asked for. Either may raise.
\<close>

definition frombytes :: "env \<Rightarrow> nat \<Rightarrow> string \<Rightarrow> pixmap \<Rightarrow> exn + image" where
  "frombytes e i m pix =
     (case frombytes_exn e i of
        Some x \<Rightarrow> Inl x
      | None \<Rightarrow> Inr \<lparr>img_mode = m, img_size = (pix_width pix, pix_height pix)\<rparr>)"

definition convert :: "env \<Rightarrow> nat \<Rightarrow> string \<Rightarrow> image \<Rightarrow> exn + image" where
  "convert e i m img =
     (case convert_exn e i of
        Some x \<Rightarrow> Inl x
      | None \<Rightarrow> Inr (img\<lparr>img_mode := m\<rparr>))"

subsection \<open>One page\<close>

text \<open>Lines 60 to 69: load, rasterize, wrap as an image, flatten.\<close>

definition render_page :: "env \<Rightarrow> nat \<Rightarrow> exn + image" where
  "render_page e i =
     (case get_pixmap e i of
        Inl x \<Rightarrow> Inl x
      | Inr pix \<Rightarrow>
          (case (if pix_alpha pix then frombytes e i ''RGBA'' pix
                 else frombytes e i ''RGB'' pix) of
             Inl x \<Rightarrow> Inl x
           | Inr pil_image \<Rightarrow>
               if img_mode pil_image = ''RGBA'' then convert e i ''RGB'' pil_image
               else Inr pil_image))"

definition output_filename :: "worker \<Rightarrow> nat \<Rightarrow> string" where
  "output_filename w i = ''page_'' @ str_of_nat (i + 1) @ ''.'' @ image_format w"

definition output_image_path :: "worker \<Rightarrow> nat \<Rightarrow> file_path" where
  "output_image_path w i = \<lparr>fp_dir = output_directory w, fp_name = output_filename w i\<rparr>"

definition error_detail :: "nat \<Rightarrow> exn \<Rightarrow> string" where
  "error_detail i e_save = ''Page '' @ str_of_nat (i + 1) @ '': '' @ exn_str e_save"

text \<open>
  Lines 71 to 79: the inner \<open>try\<close>, which catches every exception of the save. Its
  handler prints the failure before it records it, and the \<open>print\<close> is not guarded:
  when it raises, nothing is recorded and the exception leaves the handler. \<open>Inl\<close>
  carries that exception and the state at that moment (the save has been called).
\<close>

definition save_page ::
  "env \<Rightarrow> worker \<Rightarrow> nat \<Rightarrow> image \<Rightarrow> loop_state \<Rightarrow> (exn \<times> loop_state) + loop_state" where
  "save_page e w i pil_image st =
     (case save e i of
        None \<Rightarrow>
          Inr (st\<lparr>saves := saves st @
                [\<lparr>sc_path = output_image_path w i, sc_image = pil_image, sc_ok = True\<rparr>],
             converted_count := converted_count st + 1\<rparr>)
      | Some e_save \<Rightarrow>
          (case print_exn e i of
             Some e_print \<Rightarrow>
               Inl (e_print,
                    st\<lparr>saves := saves st @
                      [\<lparr>sc_path = output_image_path w i, sc_image = pil_image,
                        sc_ok = False\<rparr>]\<rparr>)
           | None \<Rightarrow>
               Inr (st\<lparr>saves := saves st @
                      [\<lparr>sc_path = output_image_path w i, sc_image = pil_image,
                        sc_ok = False\<rparr>],
                    page_save_errors := page_save_errors st @ [error_detail i e_save]\<rparr>)))"

text \<open>
  Lines 60 to 81, the loop body after the flag check: \<open>Inl\<close> is an exception that
  leaves the body for the handler of line 83, with the state in which it was raised.
\<close>

definition process_page ::
  "env \<Rightarrow> worker \<Rightarrow> nat \<Rightarrow> loop_state \<Rightarrow> (exn \<times> loop_state) + loop_state" where
  "process_page e w i st =
     (case render_page e i of
        Inl x \<Rightarrow> Inl (x, st)
      | Inr pil_image \<Rightarrow>
          (case save_page e w i pil_image st of
             Inl raised \<Rightarrow> Inl raised
           | Inr st' \<Rightarrow> Inr (st'\<lparr>events := events st' @ [ProgressTick (i + 1)]\<rparr>)))"

subsection \<open>The run\<close>

definition emit_finished :: "loop_state \<Rightarrow> string \<Rightarrow> bool \<Rightarrow> outcome" where
  "emit_finished st msg success =
     \<lparr>out_events = events st @ [Finished msg success (page_save_errors st)],
      out_saves = saves st, out_raised = None\<rparr>"

text \<open>How the loop of line 55 is left: by a \<open>return\<close>, or by running out of pages.\<close>

datatype loop_exit = Returned outcome | Exhausted loop_state

text \<open>
  \<open>for i in range(total_pages)\<close>, over the list of indices still to come. The first
  branch is the cancellation of lines 56 to 58, the second the handler of lines 83 to 85.
\<close>

fun for_pages :: "env \<Rightarrow> worker \<Rightarrow> nat list \<Rightarrow> loop_state \<Rightarrow> loop_exit" where
  "for_pages e w [] st = Exhausted st"
| "for_pages e w (i # rest) st =
     (if interruption_requested e i
      then Returned (emit_finished st ''Conversion cancelled by user.'' False)
      else (case process_page e w i st of
              Inl (e_pdf, st_raised) \<Rightarrow>
                Returned (emit_finished st_raised
                  (''Error processing PDF with PyMuPDF: '' @ exn_str e_pdf) False)
            | Inr st' \<Rightarrow> for_pages e w rest st'))"

text \<open>
  Lines 90 to 102, after the loop. The flag is read again here: the reads number
  \<open>total_pages\<close> and \<open>total_pages + 1\<close> of the run. When no branch applies nothing is
  emitted.
\<close>

definition after_loop :: "env \<Rightarrow> worker \<Rightarrow> nat \<Rightarrow> loop_state \<Rightarrow> outcome" where
  "after_loop e w total_pages st =
     (if converted_count st > 0 then
        emit_finished st
          (''Successfully converted '' @ str_of_nat (converted_count st) @ '' page(s) to '' @
             [CHR 0x27] @ output_directory w @ [CHR 0x27] @ ''.'' @
           (if page_save_errors st \<noteq> []
            then newline @ ''However, '' @ str_of_nat (length (page_save_errors st)) @
                 '' page(s) could not be saved.''
            else [])) True
      else if total_pages > 0 \<and> \<not> interruption_requested e total_pages then
        emit_finished st
          (''No pages were successfully converted.'' @
           (if page_save_errors st \<noteq> []
            then newline @ str_of_nat (length (page_save_errors st)) @
                 '' page(s) encountered errors during saving.''
            else [])) False
      else if \<not> interruption_requested e (total_pages + 1) then
        emit_finished st ''No pages were processed or an error occurred.'' False
      else \<lparr>out_events = events st, out_saves = saves st, out_raised = None\<rparr>)"

definition start_state :: loop_state where
  "start_state = \<lparr>converted_count = 0, page_save_errors = [], events = [], saves = []\<rparr>"

text \<open>The state in which the loop is entered: line 53 has emitted the page count.\<close>

definition loop_start :: "nat \<Rightarrow> loop_state" where
  "loop_start total_pages = start_state\<lparr>events := [PageCountKnown total_pages]\<rparr>"

definition run :: "env \<Rightarrow> worker \<Rightarrow> outcome" where
  "run e w =
     (if \<not> path_exists e then
        emit_finished start_state
          (''Error: Input PDF file not found:'' @ newline @ input_pdf_path w) False
      else (case makedirs e of
              Some (OSError t) \<Rightarrow>
                emit_finished start_state
                  (''Error creating output directory '' @ [CHR 0x27] @ output_directory w @
                   [CHR 0x27] @ '': '' @ t) False
            | Some (OtherException t) \<Rightarrow>
                \<lparr>out_events = [], out_saves = [], out_raised = Some (OtherException t)\<rparr>
            | None \<Rightarrow>
                (case fitz_open e of
                   Inl e_pdf \<Rightarrow>
                     emit_finished start_state
                       (''Error processing PDF with PyMuPDF: '' @ exn_str e_pdf) False
                 | Inr total_pages \<Rightarrow>
                     if total_pages = 0 then
                       emit_finished start_state
                         ''Error: The PDF file is empty or could not be read.'' False
                     else
                       (case for_pages e w [0..<total_pages] (loop_start total_pages) of
                          Returned r \<Rightarrow> r
                        | Exhausted st \<Rightarrow> after_loop e w total_pages st))))"

subsection \<open>Notions used to state the properties\<close>

text \<open>
  The setup succeeded: the source exists, the directory could be made, the document
  opened with \<open>P\<close> pages and \<open>P\<close> is not zero.
\<close>

definition setup_ok :: "env \<Rightarrow> nat \<Rightarrow> bool" where
  "setup_ok e P = (path_exists e \<and> makedirs e = None \<and> fitz_open e = Inr P \<and> 0 < P)"

text \<open>
  The loop state at the boundary before page \<open>k\<close>, that is after \<open>k\<close> pages have
  been attempted: the state in which the loop over the first \<open>k\<close> indices runs out.
  \<open>None\<close> when the run ended before that boundary.
\<close>

definition loop_head :: "env \<Rightarrow> worker \<Rightarrow> nat \<Rightarrow> nat \<Rightarrow> loop_state option" where
  "loop_head e w P k =
     (case for_pages e w [0..<k] (loop_start P) of
        Exhausted st \<Rightarrow> Some st
      | Returned r \<Rightarrow> None)"

text \<open>Among the first \<open>k\<close> pages, those whose save returns and those whose save raises.\<close>

definition saved_pages :: "env \<Rightarrow> nat \<Rightarrow> nat list" where
  "saved_pages e k = filter (\<lambda>i. save e i = None) [0..<k]"

definition failed_pages :: "env \<Rightarrow> nat \<Rightarrow> nat list" where
  "failed_pages e k = filter (\<lambda>i. save e i \<noteq> None) [0..<k]"

text \<open>
  The exception that leaves the body of page \<open>i\<close> for the handler of line 83, if
  any: one raised while the page is loaded, rasterized or converted, or one raised by the
  \<open>print\<close> in the handler of a failed save.
\<close>

definition fatal_error :: "env \<Rightarrow> nat \<Rightarrow> exn option" where
  "fatal_error e i =
     (case render_page e i of
        Inl x \<Rightarrow> Some x
      | Inr img \<Rightarrow> (case save e i of None \<Rightarrow> None | Some e_save \<Rightarrow> print_exn e i))"

text \<open>The entry of \<open>page_save_errors\<close> for page \<open>i\<close>, when its save raises.\<close>

definition save_error :: "env \<Rightarrow> nat \<Rightarrow> string" where
  "save_error e i = (case save e i of Some x \<Rightarrow> error_detail i x | None \<Rightarrow> [])"

text \<open>The value of the most recent \<open>ProgressTick\<close>, 0 before the first.\<close>

definition last_tick :: "event list \<Rightarrow> nat" where
  "last_tick evs = foldl (\<lambda>n ev. case ev of ProgressTick m \<Rightarrow> m | _ \<Rightarrow> n) 0 evs"

text \<open>The ticks \<open>1, \<dots>, k\<close>.\<close>

definition ticks :: "nat \<Rightarrow> event list" where
  "ticks k = map ProgressTick [1..<Suc k]"

definition is_finished :: "event \<Rightarrow> bool" where
  "is_finished ev = (case ev of Finished m s f \<Rightarrow> True | _ \<Rightarrow> False)"

text \<open>The paths of the files written: the saves that returned.\<close>

definition files_written :: "outcome \<Rightarrow> file_path list" where
  "files_written r = map sc_path (filter sc_ok (out_saves r))"

text \<open>Reading a decimal numeral back, to tell the file names of two pages apart.\<close>

definition digit_val :: "char \<Rightarrow> nat" where
  "digit_val c = of_char c - 48"

definition nat_of_str :: "string \<Rightarrow> nat" where
  "nat_of_str s = foldl (\<lambda>a c. 10 * a + digit_val c) 0 s"

subsection \<open>Sample runs\<close>

text \<open>A worker as the window builds it, with the format in upper case.\<close>

definition demo_worker :: worker where
  "demo_worker = init_worker ''in.pdf'' ''out'' 150 ''PNG''"

text \<open>
  A document of three pages: the save of the second page raises, the pixmap of the third
  carries an alpha channel, nobody cancels, the console takes every log line.
\<close>

definition demo_env :: env where
  "demo_env =
     \<lparr>path_exists = True, makedirs = None, fitz_open = Inr 3,
      interruption_requested = (\<lambda>n. False),
      get_pixmap = (\<lambda>i. Inr \<lparr>pix_alpha = (i = 2), pix_width = 595, pix_height = 842\<rparr>),
      frombytes_exn = (\<lambda>i. None), convert_exn = (\<lambda>i. None),
      save = (\<lambda>i. if i = 1 then Some (OSError ''disk full'') else None),
      print_exn = (\<lambda>i. None)\<rparr>"

text \<open>
  A document of one page in a directory that cannot be written; the user cancels while
  that page is being processed, after the flag was read at the top of the loop.
\<close>

definition late_cancel_env :: env where
  "late_cancel_env =
     demo_env\<lparr>fitz_open := Inr 1, interruption_requested := (\<lambda>n. 1 \<le> n),
              save := (\<lambda>i. Some (OSError ''permission denied''))\<rparr>"

text \<open>
  A worker whose output directory holds a NUL character, for which \<open>os.makedirs\<close>
  raises \<open>ValueError\<close>, which is no \<open>OSError\<close>.
\<close>

definition nul_worker :: worker where
  "nul_worker = init_worker ''in.pdf'' [CHR ''o'', CHR ''u'', CHR ''t'', CHR 0x00] 150 ''png''"

definition nul_env :: env where
  "nul_env = demo_env\<lparr>makedirs := Some (OtherException ''embedded null byte'')\<rparr>"

text \<open>The document of \<open>demo_env\<close> with a third page that cannot be rasterized.\<close>

definition broken_page_env :: env where
  "broken_page_env =
     demo_env\<lparr>get_pixmap :=
       (\<lambda>i. if i = 2 then Inl (OtherException ''cannot load page'')
            else Inr \<lparr>pix_alpha = False, pix_width = 595, pix_height = 842\<rparr>)\<rparr>"

text \<open>
  The run of \<open>demo_env\<close> with a console that cannot take the log line of a failed
  save: its encoding lacks a character of the error text, and \<open>print\<close> raises
  \<open>UnicodeEncodeError\<close>.
\<close>

definition broken_console_env :: env where
  "broken_console_env =
     demo_env\<lparr>print_exn := (\<lambda>i. Some (OtherException ''ordinal not in range(128)''))\<rparr>"

section \<open>Properties\<close>

subsection \<open>The page loop\<close>

lemma for_pages_append:
  "for_pages e w (xs @ ys) st =
     (case for_pages e w xs st of Returned r \<Rightarrow> Returned r | Exhausted st' \<Rightarrow> for_pages e w ys st')"
  by (induction xs arbitrary: st) (auto split: sum.splits prod.splits)

lemma process_page_fields:
  assumes "process_page e w i st = Inr st'"
  shows "converted_count st' = converted_count st + (if save e i = None then 1 else 0)"
    and "page_save_errors st' =
           page_save_errors st @ (if save e i = None then [] else [save_error e i])"
    and "events st' = events st @ [ProgressTick (i + 1)]"
    and "\<exists>img. render_page e i = Inr img \<and> saves st' =
           saves st @ [\<lparr>sc_path = output_image_path w i, sc_image = img, sc_ok = (save e i = None)\<rparr>]"
    and "fatal_error e i = None"
  using assms
  by (auto simp: process_page_def save_page_def save_error_def fatal_error_def
      split: sum.splits option.splits)

text \<open>
  An exception leaves the body of page \<open>i\<close> exactly when \<open>fatal_error\<close> says so;
  the state it carries differs from the state before the page by the failed save call
  at most.
\<close>

lemma process_page_Inl:
  assumes "process_page e w i st = Inl (x, st')"
  shows "fatal_error e i = Some x"
    and "converted_count st' = converted_count st"
    and "page_save_errors st' = page_save_errors st"
    and "events st' = events st"
    and "(render_page e i = Inl x \<and> st' = st) \<or>
         (\<exists>img. render_page e i = Inr img \<and> save e i \<noteq> None \<and> print_exn e i = Some x \<and>
            saves st' = saves st @
              [\<lparr>sc_path = output_image_path w i, sc_image = img, sc_ok = False\<rparr>])"
  using assms
  by (auto simp: process_page_def save_page_def fatal_error_def
      split: sum.splits option.splits)

lemma process_page_render_raises:
  "render_page e i = Inl x \<Longrightarrow> process_page e w i st = Inl (x, st)"
  by (simp add: process_page_def)

lemma process_page_Inr:
  "fatal_error e i = None \<Longrightarrow> \<exists>st'. process_page e w i st = Inr st'"
  by (auto simp: process_page_def save_page_def fatal_error_def
      split: sum.splits option.splits)

lemma for_pages_Exhausted:
  "for_pages e w xs st = Exhausted st' \<Longrightarrow>
     converted_count st' = converted_count st + length (filter (\<lambda>i. save e i = None) xs) \<and>
     page_save_errors st' =
       page_save_errors st @ map (save_error e) (filter (\<lambda>i. save e i \<noteq> None) xs) \<and>
     events st' = events st @ map (\<lambda>i. ProgressTick (i + 1)) xs \<and>
     length (saves st') = length (saves st) + length xs \<and>
     (\<forall>i\<in>set xs. \<not> interruption_requested e i \<and> fatal_error e i = None)"
proof (induction xs arbitrary: st)
  case Nil
  then show ?case by simp
next
  case (Cons i xs)
  from Cons.prems have ni: "\<not> interruption_requested e i"
    by (auto split: if_splits)
  with Cons.prems obtain st1 where p: "process_page e w i st = Inr st1"
    and r: "for_pages e w xs st1 = Exhausted st'"
    by (auto split: sum.splits prod.splits)
  note f = process_page_fields [OF p]
  from Cons.IH [OF r] f ni show ?case by auto
qed

lemma for_pages_runs_out:
  "\<forall>i\<in>set xs. \<not> interruption_requested e i \<and> fatal_error e i = None \<Longrightarrow>
     \<exists>st'. for_pages e w xs st = Exhausted st'"
proof (induction xs arbitrary: st)
  case Nil
  then show ?case by simp
next
  case (Cons i xs)
  then have "fatal_error e i = None" by simp
  then obtain st1 where "process_page e w i st = Inr st1"
    using process_page_Inr by blast
  with Cons show ?case by auto
qed

lemma for_pages_Returned:
  "for_pages e w xs st = Returned r \<Longrightarrow>
     \<exists>ys i zs st'. xs = ys @ i # zs \<and> for_pages e w ys st = Exhausted st' \<and>
       ((interruption_requested e i \<and>
         r = emit_finished st' ''Conversion cancelled by user.'' False) \<or>
        (\<not> interruption_requested e i \<and>
         (\<exists>x st''. process_page e w i st' = Inl (x, st'') \<and>
            r = emit_finished st''
                  (''Error processing PDF with PyMuPDF: '' @ exn_str x) False)))"
proof (induction xs arbitrary: st)
  case Nil
  then show ?case by simp
next
  case (Cons i xs)
  show ?case
  proof (cases "interruption_requested e i")
    case True
    with Cons.prems have "r = emit_finished st ''Conversion cancelled by user.'' False"
      by simp
    with True show ?thesis
      by (intro exI [of _ "[]"] exI [of _ i] exI [of _ xs] exI [of _ st]) simp
  next
    case False
    show ?thesis
    proof (cases "process_page e w i st")
      case (Inl raised)
      obtain x st'' where raised: "raised = (x, st'')" by (cases raised)
      with Inl False Cons.prems
      have "r = emit_finished st'' (''Error processing PDF with PyMuPDF: '' @ exn_str x) False"
        by simp
      with Inl raised False show ?thesis
        by (intro exI [of _ "[]"] exI [of _ i] exI [of _ xs] exI [of _ st]) auto
    next
      case (Inr st1)
      with False Cons.prems have "for_pages e w xs st1 = Returned r" by simp
      from Cons.IH [OF this] obtain ys j zs st' where
        h: "xs = ys @ j # zs" "for_pages e w ys st1 = Exhausted st'"
          "(interruption_requested e j \<and>
            r = emit_finished st' ''Conversion cancelled by user.'' False) \<or>
           (\<not> interruption_requested e j \<and>
            (\<exists>x st''. process_page e w j st' = Inl (x, st'') \<and>
               r = emit_finished st''
                     (''Error processing PDF with PyMuPDF: '' @ exn_str x) False))"
        by blast
      from h(2) Inr False have "for_pages e w (i # ys) st = Exhausted st'" by simp
      with h(1,3) show ?thesis
        by (intro exI [of _ "i # ys"] exI [of _ j] exI [of _ zs] exI [of _ st']) simp
    qed
  qed
qed

lemma map_tick_upt: "map (\<lambda>i. ProgressTick (Suc i)) [0..<k] = ticks k"
proof -
  have "map (\<lambda>i. ProgressTick (Suc i)) [0..<k] = map ProgressTick (map Suc [0..<k])"
    by simp
  also have "\<dots> = ticks k"
    unfolding ticks_def by (simp only: map_Suc_upt One_nat_def)
  finally show ?thesis .
qed

lemma loop_head_state:
  assumes "loop_head e w P k = Some st"
  shows "converted_count st = length (saved_pages e k)"
    and "page_save_errors st = map (save_error e) (failed_pages e k)"
    and "events st = PageCountKnown P # ticks k"
    and "length (saves st) = k"
    and "\<forall>i<k. \<not> interruption_requested e i \<and> fatal_error e i = None"
proof -
  from assms have x: "for_pages e w [0..<k] (loop_start P) = Exhausted st"
    by (simp add: loop_head_def split: loop_exit.splits)
  note f = for_pages_Exhausted [OF x]
  from f show "converted_count st = length (saved_pages e k)"
    by (simp add: loop_start_def start_state_def saved_pages_def)
  from f show "page_save_errors st = map (save_error e) (failed_pages e k)"
    by (simp add: loop_start_def start_state_def failed_pages_def)
  from f show "events st = PageCountKnown P # ticks k"
    by (simp add: loop_start_def start_state_def map_tick_upt)
  from f show "length (saves st) = k"
    by (simp add: loop_start_def start_state_def)
  from f show "\<forall>i<k. \<not> interruption_requested e i \<and> fatal_error e i = None"
    by simp
qed

lemma loop_head_continue:
  assumes "loop_head e w P k = Some st" and "k \<le> n"
  shows "for_pages e w [0..<n] (loop_start P) = for_pages e w [k..<n] st"
proof -
  from assms(1) have x: "for_pages e w [0..<k] (loop_start P) = Exhausted st"
    by (simp add: loop_head_def split: loop_exit.splits)
  from assms(2) have "[0..<n] = [0..<k] @ [k..<n]"
    by (metis le_add_diff_inverse upt_add_eq_append zero_le)
  then show ?thesis by (simp add: for_pages_append x)
qed

lemma run_setup_ok:
  "setup_ok e P \<Longrightarrow>
     run e w = (case for_pages e w [0..<P] (loop_start P) of
                  Returned r \<Rightarrow> r | Exhausted st \<Rightarrow> after_loop e w P st)"
  by (simp add: setup_ok_def run_def)

subsection \<open>Loop accounting\<close>

lemma last_tick_snoc:
  "last_tick (evs @ [ev]) = (case ev of ProgressTick m \<Rightarrow> m | _ \<Rightarrow> last_tick evs)"
  by (simp add: last_tick_def split: event.splits)

lemma ticks_Suc: "ticks (Suc k) = ticks k @ [ProgressTick (Suc k)]"
  by (simp add: ticks_def)

lemma last_tick_ticks: "last_tick (PageCountKnown P # ticks k) = k"
proof (induction k)
  case 0
  show ?case by (simp add: ticks_def last_tick_def)
next
  case (Suc k)
  have "last_tick (PageCountKnown P # ticks (Suc k)) =
        last_tick ((PageCountKnown P # ticks k) @ [ProgressTick (Suc k)])"
    by (simp add: ticks_Suc)
  then show ?case by (simp only: last_tick_snoc event.case)
qed

lemma saved_failed_length: "length (saved_pages e k) + length (failed_pages e k) = k"
  using sum_length_filter_compl [of "\<lambda>i. save e i = None" "[0..<k]"]
  by (simp add: saved_pages_def failed_pages_def)

lemma failed_pages_sorted: "sorted_wrt (<) (failed_pages e k)"
  by (simp add: failed_pages_def sorted_wrt_filter)

lemma failed_pages_entry:
  "j \<in> set (failed_pages e k) \<Longrightarrow>
     j < k \<and> (\<exists>x. save e j = Some x \<and>
                 save_error e j = ''Page '' @ str_of_nat (j + 1) @ '': '' @ exn_str x)"
  by (auto simp: failed_pages_def save_error_def error_detail_def)

lemma demo_head_2:
  "loop_head demo_env demo_worker 3 2 =
     Some \<lparr>converted_count = 1, page_save_errors = [''Page 2: disk full''],
       events = [PageCountKnown 3, ProgressTick 1, ProgressTick 2],
       saves = [\<lparr>sc_path = \<lparr>fp_dir = ''out'', fp_name = ''page_1.png''\<rparr>,
           sc_image = \<lparr>img_mode = ''RGB'', img_size = (595, 842)\<rparr>, sc_ok = True\<rparr>,
        \<lparr>sc_path = \<lparr>fp_dir = ''out'', fp_name = ''page_2.png''\<rparr>,
           sc_image = \<lparr>img_mode = ''RGB'', img_size = (595, 842)\<rparr>, sc_ok = False\<rparr>]\<rparr>"
  by code_simp

text \<open>
  Claim C10. At every boundary of the page loop, that is in every state \<open>st\<close> in which
  the loop stands before page \<open>k\<close> of a run over \<open>P\<close> pages (the run goes on from
  \<open>st\<close> with the pages \<open>k, \<dots>, P - 1\<close>): the count of converted pages plus the
  length of the failure list is \<open>k\<close>, the number of pages attempted; \<open>k\<close> is the
  value of the most recent progress tick, 0 before the first; and the failure list holds,
  in strictly ascending order of page, one entry \<open>Page j+1: text\<close> for each page
  \<open>j < k\<close> whose save raised.
\<close>

theorem loop_accounting_invariant:
  assumes "loop_head e w P k = Some st" and "k \<le> P"
  shows "for_pages e w [0..<P] (loop_start P) = for_pages e w [k..<P] st \<and>
         converted_count st + length (page_save_errors st) = k \<and>
         last_tick (events st) = k \<and>
         page_save_errors st = map (save_error e) (failed_pages e k) \<and>
         sorted_wrt (<) (failed_pages e k) \<and>
         (\<forall>j\<in>set (failed_pages e k).
            j < k \<and> (\<exists>x. save e j = Some x \<and>
              save_error e j = ''Page '' @ str_of_nat (j + 1) @ '': '' @ exn_str x))"
proof -
  note s = loop_head_state [OF assms(1)]
  have "for_pages e w [0..<P] (loop_start P) = for_pages e w [k..<P] st"
    by (rule loop_head_continue [OF assms])
  moreover have "converted_count st + length (page_save_errors st) = k"
    using s(1,2) saved_failed_length [of e k] by simp
  moreover have "last_tick (events st) = k"
    using s(3) by (simp add: last_tick_ticks)
  ultimately show ?thesis
    using s(2) failed_pages_sorted failed_pages_entry by blast
qed

theorem loop_accounting_invariant_witness:
  "\<exists>st. loop_head demo_env demo_worker 3 2 = Some st \<and> (2::nat) \<le> 3 \<and>
        converted_count st = 1 \<and> page_save_errors st = [''Page 2: disk full''] \<and>
        converted_count st + length (page_save_errors st) = 2 \<and>
        last_tick (events st) = 2 \<and>
        page_save_errors st = map (save_error demo_env) (failed_pages demo_env 2) \<and>
        sorted_wrt (<) (failed_pages demo_env 2)"
proof -
  have k: "(2::nat) \<le> 3" by simp
  obtain st where h: "loop_head demo_env demo_worker 3 2 = Some st"
    and c: "converted_count st = 1"
    and p: "page_save_errors st = [''Page 2: disk full'']"
    using demo_head_2 by simp
  from loop_accounting_invariant [OF h k] h c p k show ?thesis
    by blast
qed

subsection \<open>How a run ends\<close>

lemma upt_split:
  assumes "[0..<P] = ys @ i # zs"
  shows "ys = [0..<i] \<and> i < P"
proof -
  from assms have "length [0..<P] = length (ys @ i # zs)" by simp
  then have l: "length ys < P" by simp
  have "[0..<P] ! length ys = i"
    by (simp add: assms)
  with l have i: "i = length ys" by simp
  have "ys = take (length ys) [0..<P]"
    by (simp add: assms)
  also have "\<dots> = [0..<length ys]"
    using l by (simp add: take_upt)
  finally show ?thesis using i l by simp
qed

lemma loop_head_Exhausted:
  "(loop_head e w P k = Some st) = (for_pages e w [0..<k] (loop_start P) = Exhausted st)"
  by (simp add: loop_head_def split: loop_exit.splits)

lemma render_page_mode: "render_page e i = Inr img \<Longrightarrow> img_mode img = ''RGB''"
  by (auto simp: render_page_def frombytes_def convert_def
      split: sum.splits if_splits option.splits)

lemma for_pages_saves:
  "for_pages e w xs st = Exhausted st' \<Longrightarrow>
     map (\<lambda>c. (sc_path c, sc_ok c)) (saves st') =
       map (\<lambda>c. (sc_path c, sc_ok c)) (saves st) @
       map (\<lambda>i. (output_image_path w i, save e i = None)) xs \<and>
     ((\<forall>c\<in>set (saves st). img_mode (sc_image c) = ''RGB'') \<longrightarrow>
      (\<forall>c\<in>set (saves st'). img_mode (sc_image c) = ''RGB''))"
proof (induction xs arbitrary: st)
  case Nil
  then show ?case by simp
next
  case (Cons i xs)
  from Cons.prems have ni: "\<not> interruption_requested e i"
    by (auto split: if_splits)
  with Cons.prems obtain st1 where p: "process_page e w i st = Inr st1"
    and r: "for_pages e w xs st1 = Exhausted st'"
    by (auto split: sum.splits prod.splits)
  from process_page_fields(4) [OF p] obtain img where
    i: "render_page e i = Inr img"
    and s: "saves st1 = saves st @
      [\<lparr>sc_path = output_image_path w i, sc_image = img, sc_ok = (save e i = None)\<rparr>]"
    by blast
  from render_page_mode [OF i] s
  have m: "(\<forall>c\<in>set (saves st). img_mode (sc_image c) = ''RGB'') \<longrightarrow>
           (\<forall>c\<in>set (saves st1). img_mode (sc_image c) = ''RGB'')"
    by simp
  from Cons.IH [OF r] s m show ?case by simp
qed

lemma loop_head_saves:
  assumes "loop_head e w P k = Some st"
  shows "map (\<lambda>c. (sc_path c, sc_ok c)) (saves st) =
           map (\<lambda>i. (output_image_path w i, save e i = None)) [0..<k]"
    and "\<forall>c\<in>set (saves st). img_mode (sc_image c) = ''RGB''"
proof -
  from assms have x: "for_pages e w [0..<k] (loop_start P) = Exhausted st"
    by (simp add: loop_head_Exhausted)
  from for_pages_saves [OF x]
  show "map (\<lambda>c. (sc_path c, sc_ok c)) (saves st) =
           map (\<lambda>i. (output_image_path w i, save e i = None)) [0..<k]"
    by (simp add: loop_start_def start_state_def)
  from for_pages_saves [OF x]
  show "\<forall>c\<in>set (saves st). img_mode (sc_image c) = ''RGB''"
    by (simp add: loop_start_def start_state_def)
qed

lemma files_of_saves:
  assumes "map (\<lambda>c. (sc_path c, sc_ok c)) cs =
             map (\<lambda>i. (output_image_path w i, save e i = None)) [0..<k]"
  shows "map sc_path (filter sc_ok cs) = map (output_image_path w) (saved_pages e k)"
    and "length cs = k"
proof -
  have "map sc_path (filter sc_ok cs) =
        map fst (filter snd (map (\<lambda>c. (sc_path c, sc_ok c)) cs))"
    by (simp add: filter_map comp_def)
  also have "\<dots> = map fst (filter snd
                 (map (\<lambda>i. (output_image_path w i, save e i = None)) [0..<k]))"
    by (simp only: assms)
  also have "\<dots> = map (output_image_path w) (saved_pages e k)"
    by (simp add: filter_map comp_def saved_pages_def)
  finally show "map sc_path (filter sc_ok cs) = map (output_image_path w) (saved_pages e k)" .
  from assms have "length (map (\<lambda>c. (sc_path c, sc_ok c)) cs) =
                   length (map (\<lambda>i. (output_image_path w i, save e i = None)) [0..<k])"
    by (rule arg_cong)
  then show "length cs = k" by simp
qed

lemma loop_cancelled:
  assumes "loop_head e w P k = Some st" and "k < P" and "interruption_requested e k"
  shows "for_pages e w [0..<P] (loop_start P) =
           Returned (emit_finished st ''Conversion cancelled by user.'' False)"
proof -
  from assms(2) have "[k..<P] = k # [Suc k..<P]" by (rule upt_conv_Cons)
  with loop_head_continue [OF assms(1), of P] assms(2,3) show ?thesis by simp
qed

lemma loop_raised:
  assumes "loop_head e w P k = Some st" and "k < P" and "\<not> interruption_requested e k"
    and "process_page e w k st = Inl (x, st')"
  shows "for_pages e w [0..<P] (loop_start P) =
           Returned (emit_finished st'
             (''Error processing PDF with PyMuPDF: '' @ exn_str x) False)"
proof -
  from assms(2) have "[k..<P] = k # [Suc k..<P]" by (rule upt_conv_Cons)
  then show ?thesis
    using loop_head_continue [OF assms(1), of P] assms(2,3,4) by simp
qed

lemma loop_fatal:
  assumes "loop_head e w P k = Some st" and "k < P" and "\<not> interruption_requested e k"
    and "render_page e k = Inl x"
  shows "for_pages e w [0..<P] (loop_start P) =
           Returned (emit_finished st (''Error processing PDF with PyMuPDF: '' @ exn_str x) False)"
  using loop_raised [OF assms(1,2,3) process_page_render_raises [OF assms(4)]] .

text \<open>A boundary at which the loop is left is the last one.\<close>

lemma loop_head_last:
  assumes "loop_head e w P k = Some st"
    and "interruption_requested e k \<or> (\<exists>x st'. process_page e w k st = Inl (x, st'))"
  shows "loop_head e w P (Suc k) = None"
proof -
  from assms(1) have x: "for_pages e w [0..<k] (loop_start P) = Exhausted st"
    by (simp add: loop_head_Exhausted)
  have "for_pages e w [0..<Suc k] (loop_start P) = for_pages e w [k] st"
    by (simp add: for_pages_append x)
  moreover from assms(2) have "\<exists>r. for_pages e w [k] st = Returned r"
    by auto
  ultimately show ?thesis by (auto simp: loop_head_def)
qed

lemma loop_Returned:
  assumes "for_pages e w [0..<P] (loop_start P) = Returned r"
  shows "\<exists>k st. k < P \<and> loop_head e w P k = Some st \<and>
           ((interruption_requested e k \<and>
             r = emit_finished st ''Conversion cancelled by user.'' False) \<or>
            (\<not> interruption_requested e k \<and>
             (\<exists>x st'. process_page e w k st = Inl (x, st') \<and>
               r = emit_finished st'
                     (''Error processing PDF with PyMuPDF: '' @ exn_str x) False)))"
proof -
  from for_pages_Returned [OF assms] obtain ys i zs st' where
    h: "[0..<P] = ys @ i # zs" "for_pages e w ys (loop_start P) = Exhausted st'"
      "(interruption_requested e i \<and>
        r = emit_finished st' ''Conversion cancelled by user.'' False) \<or>
       (\<not> interruption_requested e i \<and>
        (\<exists>x st''. process_page e w i st' = Inl (x, st'') \<and>
           r = emit_finished st''
                 (''Error processing PDF with PyMuPDF: '' @ exn_str x) False))"
    by blast
  from upt_split [OF h(1)] have ys: "ys = [0..<i]" and i: "i < P" by simp_all
  from h(2) ys have "loop_head e w P i = Some st'"
    by (simp add: loop_head_Exhausted)
  with i h(3) show ?thesis by blast
qed

text \<open>The three ways a run with a successful setup ends.\<close>

lemma run_cases:
  assumes "setup_ok e P"
  shows "(\<exists>k st. k < P \<and> loop_head e w P k = Some st \<and> interruption_requested e k \<and>
            run e w = emit_finished st ''Conversion cancelled by user.'' False) \<or>
         (\<exists>k st x st'. k < P \<and> loop_head e w P k = Some st \<and>
            \<not> interruption_requested e k \<and> process_page e w k st = Inl (x, st') \<and>
            run e w = emit_finished st'
                        (''Error processing PDF with PyMuPDF: '' @ exn_str x) False) \<or>
         (\<exists>st. loop_head e w P P = Some st \<and> run e w = after_loop e w P st)"
proof (cases "for_pages e w [0..<P] (loop_start P)")
  case (Returned r)
  then have "run e w = r"
    by (simp add: run_setup_ok [OF assms])
  with loop_Returned [OF Returned] show ?thesis by blast
next
  case (Exhausted st)
  then have "run e w = after_loop e w P st"
    by (simp add: run_setup_ok [OF assms])
  moreover from Exhausted have "loop_head e w P P = Some st"
    by (simp add: loop_head_Exhausted)
  ultimately show ?thesis by blast
qed

lemma after_loop_events:
  "out_events (after_loop e w P st) = events st \<or>
   (\<exists>m s. out_events (after_loop e w P st) = events st @ [Finished m s (page_save_errors st)])"
  unfolding after_loop_def emit_finished_def
  by (cases "0 < converted_count st"; cases "0 < P \<and> \<not> interruption_requested e P";
      cases "interruption_requested e (P + 1)") (simp_all, blast+)

lemma after_loop_saves: "out_saves (after_loop e w P st) = saves st"
  by (simp add: after_loop_def emit_finished_def)

lemma after_loop_raised: "out_raised (after_loop e w P st) = None"
  by (simp add: after_loop_def emit_finished_def)

text \<open>
  A run with a successful setup ends at one boundary \<open>k\<close> of the loop, the last it
  reaches. Its signals are those of the state at that boundary and at most one terminal
  signal, which carries the failure list of that state; its save calls are those of that
  state and, when the \<open>print\<close> of a failed save raised, the failed call of page
  \<open>k\<close>.
\<close>

lemma run_ends_at_boundary:
  assumes "setup_ok e P"
  shows "\<exists>k st extra fin. k \<le> P \<and> loop_head e w P k = Some st \<and>
           (k = P \<or> loop_head e w P (Suc k) = None) \<and>
           out_events (run e w) = events st @ fin \<and>
           (fin = [] \<or> (\<exists>m s. fin = [Finished m s (page_save_errors st)])) \<and>
           out_saves (run e w) = saves st @ extra \<and>
           (extra = [] \<or>
            (save e k \<noteq> None \<and>
             (\<exists>img. render_page e k = Inr img \<and>
                extra = [\<lparr>sc_path = output_image_path w k, sc_image = img,
                          sc_ok = False\<rparr>]))) \<and>
           out_raised (run e w) = None"
proof -
  from run_cases [OF assms, of w] consider
    (cancelled) k st where "k < P" "loop_head e w P k = Some st"
      "interruption_requested e k"
      "run e w = emit_finished st ''Conversion cancelled by user.'' False"
  | (raised) k st x st' where "k < P" "loop_head e w P k = Some st"
      "process_page e w k st = Inl (x, st')"
      "run e w = emit_finished st'
                   (''Error processing PDF with PyMuPDF: '' @ exn_str x) False"
  | (exhausted) st where "loop_head e w P P = Some st" "run e w = after_loop e w P st"
    by blast
  then show ?thesis
  proof cases
    case cancelled
    have l: "loop_head e w P (Suc k) = None"
      using loop_head_last [OF cancelled(2)] cancelled(3) by blast
    have "k \<le> P" using cancelled(1) by simp
    moreover have "out_events (run e w) =
        events st @ [Finished ''Conversion cancelled by user.'' False (page_save_errors st)]"
      by (simp add: cancelled(4) emit_finished_def)
    moreover have "out_saves (run e w) = saves st @ []"
      by (simp add: cancelled(4) emit_finished_def)
    moreover have "out_raised (run e w) = None"
      by (simp add: cancelled(4) emit_finished_def)
    ultimately show ?thesis using cancelled(2) l by blast
  next
    case raised
    note f = process_page_Inl [OF raised(3)]
    have l: "loop_head e w P (Suc k) = None"
      using loop_head_last [OF raised(2)] raised(3) by blast
    have "k \<le> P" using raised(1) by simp
    moreover have "out_events (run e w) =
        events st @ [Finished (''Error processing PDF with PyMuPDF: '' @ exn_str x) False
                       (page_save_errors st)]"
      by (simp add: raised(4) emit_finished_def f(3,4))
    moreover have "\<exists>extra. out_saves (run e w) = saves st @ extra \<and>
           (extra = [] \<or>
            (save e k \<noteq> None \<and>
             (\<exists>img. render_page e k = Inr img \<and>
                extra = [\<lparr>sc_path = output_image_path w k, sc_image = img,
                          sc_ok = False\<rparr>])))"
      using f(5)
    proof
      assume "render_page e k = Inl x \<and> st' = st"
      then have "out_saves (run e w) = saves st @ []"
        by (simp add: raised(4) emit_finished_def)
      then show ?thesis by blast
    next
      assume "\<exists>img. render_page e k = Inr img \<and> save e k \<noteq> None \<and> print_exn e k = Some x \<and>
            saves st' = saves st @
              [\<lparr>sc_path = output_image_path w k, sc_image = img, sc_ok = False\<rparr>]"
      then obtain img where i: "render_page e k = Inr img" "save e k \<noteq> None"
        "saves st' = saves st @
              [\<lparr>sc_path = output_image_path w k, sc_image = img, sc_ok = False\<rparr>]"
        by blast
      then have "out_saves (run e w) = saves st @
              [\<lparr>sc_path = output_image_path w k, sc_image = img, sc_ok = False\<rparr>]"
        by (simp add: raised(4) emit_finished_def)
      with i(1,2) show ?thesis by blast
    qed
    moreover have "out_raised (run e w) = None"
      by (simp add: raised(4) emit_finished_def)
    ultimately show ?thesis using raised(2) l by blast
  next
    case exhausted
    from after_loop_events [of e w P st]
    have "\<exists>fin. out_events (run e w) = events st @ fin \<and>
            (fin = [] \<or> (\<exists>m s. fin = [Finished m s (page_save_errors st)]))"
    proof
      assume "out_events (after_loop e w P st) = events st"
      then have "out_events (run e w) = events st @ []" by (simp add: exhausted(2))
      then show ?thesis by blast
    next
      assume "\<exists>m s. out_events (after_loop e w P st) =
                events st @ [Finished m s (page_save_errors st)]"
      then show ?thesis by (simp add: exhausted(2)) blast
    qed
    moreover have "out_saves (run e w) = saves st @ []"
      by (simp add: exhausted(2) after_loop_saves)
    moreover have "out_raised (run e w) = None"
      by (simp add: exhausted(2) after_loop_raised)
    ultimately show ?thesis using exhausted(1) by blast
  qed
qed



lemma files_written_boundary:
  assumes "loop_head e w P k = Some st"
    and "out_saves r = saves st @ extra"
    and "extra = [] \<or>
         (save e k \<noteq> None \<and>
          (\<exists>img. render_page e k = Inr img \<and>
             extra = [\<lparr>sc_path = output_image_path w k, sc_image = img, sc_ok = False\<rparr>]))"
  shows "files_written r = map (output_image_path w) (saved_pages e k)"
proof -
  from assms(3) have "filter sc_ok extra = []" by auto
  with assms(2) have "files_written r = map sc_path (filter sc_ok (saves st))"
    by (simp add: files_written_def)
  with files_of_saves(1) [OF loop_head_saves(1) [OF assms(1)]] show ?thesis by simp
qed



subsection \<open>Cancellation\<close>

lemma render_page_flag:
  "render_page (e\<lparr>interruption_requested := f\<rparr>) i = render_page e i"
proof -
  have "frombytes (e\<lparr>interruption_requested := f\<rparr>) = frombytes e"
    by (simp add: frombytes_def fun_eq_iff)
  moreover have "convert (e\<lparr>interruption_requested := f\<rparr>) = convert e"
    by (simp add: convert_def fun_eq_iff)
  ultimately show ?thesis by (simp add: render_page_def cong: sum.case_cong if_cong)
qed

lemma process_page_flag:
  "process_page (e\<lparr>interruption_requested := f\<rparr>) w i st = process_page e w i st"
proof -
  have "save_page (e\<lparr>interruption_requested := f\<rparr>) = save_page e"
    by (simp add: save_page_def fun_eq_iff cong: option.case_cong)
  then show ?thesis by (simp add: process_page_def render_page_flag cong: sum.case_cong)
qed

lemma ticks_set: "(ProgressTick n \<in> set (ticks k)) = (1 \<le> n \<and> n \<le> k)"
  by (auto simp: ticks_def)

text \<open>
  Claim C3. The page body does not read the cancellation flag: the flag is read at the
  top of each iteration (and after the loop). When the flag is found set at the boundary
  after \<open>k < P\<close> pages, no further page is attempted: the run ends with the terminal
  signal \<open>Conversion cancelled by user.\<close>, success false, carrying the failures of the
  pages before \<open>k\<close>; the signals before it are the page count and the ticks
  \<open>1, \<dots>, k\<close>, so no tick exceeds \<open>k\<close>.
\<close>

theorem cancellation_at_boundary:
  assumes "setup_ok e P" and "k < P" and "loop_head e w P k = Some st"
    and "interruption_requested e k"
  shows "(\<forall>f i s. process_page (e\<lparr>interruption_requested := f\<rparr>) w i s = process_page e w i s) \<and>
         run e w =
           \<lparr>out_events = PageCountKnown P # ticks k @
              [Finished ''Conversion cancelled by user.'' False
                 (map (save_error e) (failed_pages e k))],
            out_saves = saves st, out_raised = None\<rparr> \<and>
         length (saves st) = k \<and>
         (\<forall>n. ProgressTick n \<in> set (out_events (run e w)) \<longrightarrow> n \<le> k)"
proof -
  note s = loop_head_state [OF assms(3)]
  have "run e w = emit_finished st ''Conversion cancelled by user.'' False"
    using loop_cancelled [OF assms(3,2,4)] by (simp add: run_setup_ok [OF assms(1)])
  then have r: "run e w =
           \<lparr>out_events = PageCountKnown P # ticks k @
              [Finished ''Conversion cancelled by user.'' False
                 (map (save_error e) (failed_pages e k))],
            out_saves = saves st, out_raised = None\<rparr>"
    using s(2,3) by (simp add: emit_finished_def)
  have "\<forall>n. ProgressTick n \<in> set (out_events (run e w)) \<longrightarrow> n \<le> k"
    by (simp add: r ticks_set)
  with r s(4) process_page_flag show ?thesis by blast
qed

lemma cancel_head_2:
  "loop_head (demo_env\<lparr>interruption_requested := (\<lambda>n. 2 \<le> n)\<rparr>) demo_worker 3 2 =
     Some \<lparr>converted_count = 1, page_save_errors = [''Page 2: disk full''],
       events = [PageCountKnown 3, ProgressTick 1, ProgressTick 2],
       saves = [\<lparr>sc_path = \<lparr>fp_dir = ''out'', fp_name = ''page_1.png''\<rparr>,
           sc_image = \<lparr>img_mode = ''RGB'', img_size = (595, 842)\<rparr>, sc_ok = True\<rparr>,
        \<lparr>sc_path = \<lparr>fp_dir = ''out'', fp_name = ''page_2.png''\<rparr>,
           sc_image = \<lparr>img_mode = ''RGB'', img_size = (595, 842)\<rparr>, sc_ok = False\<rparr>]\<rparr>"
  by code_simp

theorem cancellation_at_boundary_witness:
  "setup_ok (demo_env\<lparr>interruption_requested := (\<lambda>n. 2 \<le> n)\<rparr>) 3 \<and> (2::nat) < 3 \<and>
   interruption_requested (demo_env\<lparr>interruption_requested := (\<lambda>n. 2 \<le> n)\<rparr>) 2 \<and>
   out_events (run (demo_env\<lparr>interruption_requested := (\<lambda>n. 2 \<le> n)\<rparr>) demo_worker) =
     [PageCountKnown 3, ProgressTick 1, ProgressTick 2,
      Finished ''Conversion cancelled by user.'' False [''Page 2: disk full'']] \<and>
   length (out_saves (run (demo_env\<lparr>interruption_requested := (\<lambda>n. 2 \<le> n)\<rparr>) demo_worker)) = 2"
proof -
  let ?e = "demo_env\<lparr>interruption_requested := (\<lambda>n. 2 \<le> n)\<rparr>"
  have a: "setup_ok ?e 3" by code_simp
  have b: "(2::nat) < 3" by simp
  have c: "interruption_requested ?e 2" by simp
  have t: "ticks 2 = [ProgressTick 1, ProgressTick 2]" by code_simp
  have f: "map (save_error ?e) (failed_pages ?e 2) = [''Page 2: disk full'']" by code_simp
  from cancellation_at_boundary [OF a b cancel_head_2 c] a b c show ?thesis
    by (simp add: t f)
qed

subsection \<open>Normal termination\<close>

lemma loop_runs_out:
  assumes "\<forall>i<P. \<not> interruption_requested e i \<and> fatal_error e i = None"
  shows "\<exists>st. loop_head e w P P = Some st"
proof -
  from assms
  have "\<forall>i\<in>set [0..<P]. \<not> interruption_requested e i \<and> fatal_error e i = None"
    by simp
  from for_pages_runs_out [OF this] obtain st where
    "for_pages e w [0..<P] (loop_start P) = Exhausted st" by blast
  then show ?thesis by (simp add: loop_head_Exhausted)
qed

text \<open>
  Claim C2. Take a run over \<open>P \<ge> 1\<close> pages without a fatal error (no exception
  leaves the body of a page) and without cancellation (the flag is clear at each of its
  reads, those of the loop and the one of line 96 after it). Let \<open>c\<close> be the number
  of pages whose save returned and \<open>fl\<close> the failure entries of the others. The
  signals are the page count, the ticks \<open>1, \<dots>, P\<close> and one terminal signal, whose
  success flag is \<open>0 < c\<close> and whose failure list is \<open>fl\<close>. When \<open>0 < c\<close> the
  summary states \<open>c\<close> and the directory, followed, when \<open>fl\<close> is not empty, by the
  number of pages that could not be saved. When \<open>c = 0\<close> the summary is that no pages
  were converted, followed by the number of pages with errors.
\<close>

theorem normal_termination:
  assumes "setup_ok e P"
    and "\<forall>i<P. fatal_error e i = None"
    and "\<forall>n\<le>P. \<not> interruption_requested e n"
  shows "out_events (run e w) =
           PageCountKnown P # ticks P @
           [Finished
              (if 0 < length (saved_pages e P) then
                 ''Successfully converted '' @ str_of_nat (length (saved_pages e P)) @
                 '' page(s) to '' @ [CHR 0x27] @ output_directory w @ [CHR 0x27] @ ''.'' @
                 (if failed_pages e P \<noteq> [] then
                    newline @ ''However, '' @ str_of_nat (length (failed_pages e P)) @
                    '' page(s) could not be saved.''
                  else [])
               else
                 ''No pages were successfully converted.'' @ newline @
                 str_of_nat (length (failed_pages e P)) @
                 '' page(s) encountered errors during saving.'')
              (0 < length (saved_pages e P))
              (map (save_error e) (failed_pages e P))]"
proof -
  have f: "\<forall>i<P. \<not> interruption_requested e i \<and> fatal_error e i = None"
  proof (intro allI impI)
    fix i assume i: "i < P"
    then have "i \<le> P" by simp
    with assms(3) have "\<not> interruption_requested e i" by blast
    moreover from assms(2) i have "fatal_error e i = None" by blast
    ultimately show "\<not> interruption_requested e i \<and> fatal_error e i = None" ..
  qed
  have nP: "\<not> interruption_requested e P" using assms(3) by blast
  from loop_runs_out [OF f] obtain st where h: "loop_head e w P P = Some st"
    by blast
  note s = loop_head_state [OF h]
  from h have "for_pages e w [0..<P] (loop_start P) = Exhausted st"
    by (simp add: loop_head_Exhausted)
  then have r: "run e w = after_loop e w P st"
    by (simp add: run_setup_ok [OF assms(1)])
  from assms(1) have P: "0 < P" by (simp add: setup_ok_def)
  show ?thesis
  proof (cases "0 < length (saved_pages e P)")
    case True
    then show ?thesis
      using r s(1,2,3) by (simp add: after_loop_def emit_finished_def)
  next
    case False
    with saved_failed_length [of e P] P have "failed_pages e P \<noteq> []" by auto
    with False show ?thesis
      using r s(1,2,3) P nP by (simp add: after_loop_def emit_finished_def)
  qed
qed


lemma demo_values:
  "setup_ok demo_env 3"
  "length (saved_pages demo_env 3) = 2"
  "failed_pages demo_env 3 = [1]"
  "save_error demo_env (Suc 0) = ''Page 2: disk full''"
  "ticks 3 = [ProgressTick 1, ProgressTick 2, ProgressTick 3]"
  "str_of_nat 2 = ''2''"
  "str_of_nat (Suc 0) = ''1''"
  "output_directory demo_worker = ''out''"
  by code_simp+

lemma demo_no_fatal_error:
  "fatal_error demo_env 0 = None" "fatal_error demo_env 1 = None"
  "fatal_error demo_env 2 = None"
  by code_simp+

theorem normal_termination_witness:
  "setup_ok demo_env 3 \<and>
   fatal_error demo_env 0 = None \<and> fatal_error demo_env 1 = None \<and>
   fatal_error demo_env 2 = None \<and>
   interruption_requested demo_env = (\<lambda>n. False) \<and>
   out_events (run demo_env demo_worker) =
     [PageCountKnown 3, ProgressTick 1, ProgressTick 2, ProgressTick 3,
      Finished (''Successfully converted 2 page(s) to '' @ [CHR 0x27] @ ''out'' @ [CHR 0x27] @
                ''.'' @ newline @ ''However, 1 page(s) could not be saved.'')
        True [''Page 2: disk full'']]"
proof -
  have c: "\<forall>n\<le>3. \<not> interruption_requested demo_env n"
    by (simp add: demo_env_def)
  have r: "\<forall>i<3. fatal_error demo_env i = None"
  proof (intro allI impI)
    fix i :: nat assume "i < 3"
    then have "i = 0 \<or> i = 1 \<or> i = 2" by arith
    then show "fatal_error demo_env i = None"
      using demo_no_fatal_error by blast
  qed
  have f: "interruption_requested demo_env = (\<lambda>n. False)"
    by (simp add: demo_env_def)
  have "out_events (run demo_env demo_worker) =
     [PageCountKnown 3, ProgressTick 1, ProgressTick 2, ProgressTick 3,
      Finished (''Successfully converted 2 page(s) to '' @ [CHR 0x27] @ ''out'' @ [CHR 0x27] @
                ''.'' @ newline @ ''However, 1 page(s) could not be saved.'')
        True [''Page 2: disk full'']]"
    using normal_termination [OF demo_values(1) r c, of demo_worker]
    by (simp add: demo_values)
  with demo_values(1) demo_no_fatal_error f show ?thesis by blast
qed

subsection \<open>Setup errors\<close>

text \<open>
  Claim C5, with the failure of the directory creation as the code handles it. A run
  whose setup fails emits one signal, the terminal one, with success false and an empty
  failure list, and attempts no page: no page count, no tick, no save. The three setup
  errors are a source path that does not exist, an \<open>OSError\<close> from the creation of
  the destination directory, and a document that opens with zero pages.
\<close>

theorem setup_errors:
  "(\<not> path_exists e \<longrightarrow>
      run e w =
        \<lparr>out_events =
           [Finished (''Error: Input PDF file not found:'' @ newline @ input_pdf_path w)
              False []],
         out_saves = [], out_raised = None\<rparr>) \<and>
   (path_exists e \<and> makedirs e = Some (OSError t) \<longrightarrow>
      run e w =
        \<lparr>out_events =
           [Finished (''Error creating output directory '' @ [CHR 0x27] @
                      output_directory w @ [CHR 0x27] @ '': '' @ t) False []],
         out_saves = [], out_raised = None\<rparr>) \<and>
   (path_exists e \<and> makedirs e = None \<and> fitz_open e = Inr 0 \<longrightarrow>
      run e w =
        \<lparr>out_events =
           [Finished ''Error: The PDF file is empty or could not be read.'' False []],
         out_saves = [], out_raised = None\<rparr>)"
  by (simp add: run_def emit_finished_def start_state_def)

theorem setup_errors_witness:
  "\<not> path_exists (demo_env\<lparr>path_exists := False\<rparr>) \<and>
   out_events (run (demo_env\<lparr>path_exists := False\<rparr>) demo_worker) =
     [Finished (''Error: Input PDF file not found:'' @ newline @ ''in.pdf'') False []] \<and>
   path_exists (demo_env\<lparr>makedirs := Some (OSError ''read-only file system'')\<rparr>) \<and>
   makedirs (demo_env\<lparr>makedirs := Some (OSError ''read-only file system'')\<rparr>) =
     Some (OSError ''read-only file system'') \<and>
   out_events (run (demo_env\<lparr>makedirs := Some (OSError ''read-only file system'')\<rparr>)
                 demo_worker) =
     [Finished (''Error creating output directory '' @ [CHR 0x27] @ ''out'' @ [CHR 0x27] @
                '': read-only file system'') False []] \<and>
   path_exists (demo_env\<lparr>fitz_open := Inr 0\<rparr>) \<and>
   makedirs (demo_env\<lparr>fitz_open := Inr 0\<rparr>) = None \<and>
   fitz_open (demo_env\<lparr>fitz_open := Inr 0\<rparr>) = Inr 0 \<and>
   run (demo_env\<lparr>fitz_open := Inr 0\<rparr>) demo_worker =
     \<lparr>out_events =
        [Finished ''Error: The PDF file is empty or could not be read.'' False []],
      out_saves = [], out_raised = None\<rparr>"
proof -
  have p: "path_exists demo_env" "makedirs demo_env = None"
    "input_pdf_path demo_worker = ''in.pdf''" "output_directory demo_worker = ''out''"
    by code_simp+
  from setup_errors [where e = "demo_env\<lparr>path_exists := False\<rparr>" and w = demo_worker]
    setup_errors [where e = "demo_env\<lparr>makedirs := Some (OSError ''read-only file system'')\<rparr>"
      and t = "''read-only file system''" and w = demo_worker]
    setup_errors [where e = "demo_env\<lparr>fitz_open := Inr 0\<rparr>" and w = demo_worker]
  show ?thesis by (simp add: p)
qed

text \<open>
  Claim C5, where it does not hold for every directory that cannot be created: for the
  output directory of \<open>nul_worker\<close> the creation raises \<open>ValueError\<close>, which line
  38 does not catch; the run emits no terminal signal.
\<close>

theorem uncreatable_directory_without_outcome:
  "path_exists nul_env \<and>
   makedirs nul_env = Some (OtherException ''embedded null byte'') \<and>
   run nul_env nul_worker =
     \<lparr>out_events = [], out_saves = [],
      out_raised = Some (OtherException ''embedded null byte'')\<rparr>"
  by code_simp

subsection \<open>A page whose save fails\<close>

text \<open>
  When the loop reaches page \<open>i\<close>, the page renders, its save raises \<open>x\<close> and the
  console takes the log line, the iteration ends in the state that differs from the one
  before in this only: the failed save call is logged, the one entry
  \<open>Page i+1: text of x\<close> is appended to the failure list, and the tick \<open>i + 1\<close> is
  emitted; the count of converted pages is unchanged. The loop then goes on with the
  remaining pages from that state.
\<close>

lemma save_failure_recorded:
  assumes "\<not> interruption_requested e i"
    and "render_page e i = Inr img"
    and "save e i = Some x"
    and "print_exn e i = None"
  shows "for_pages e w (i # rest) st =
           for_pages e w rest
             (st\<lparr>saves := saves st @
                    [\<lparr>sc_path = output_image_path w i, sc_image = img, sc_ok = False\<rparr>],
                 page_save_errors := page_save_errors st @
                    [''Page '' @ str_of_nat (i + 1) @ '': '' @ exn_str x],
                 events := events st @ [ProgressTick (i + 1)]\<rparr>)"
  using assms
  by (simp add: process_page_def save_page_def error_detail_def)

lemma save_failure_recorded_demo:
  "\<not> interruption_requested late_cancel_env 0 \<and>
   render_page late_cancel_env 0 = Inr \<lparr>img_mode = ''RGB'', img_size = (595, 842)\<rparr> \<and>
   save late_cancel_env 0 = Some (OSError ''permission denied'') \<and>
   for_pages late_cancel_env demo_worker [0] (loop_start 1) =
     Exhausted
       \<lparr>converted_count = 0, page_save_errors = [''Page 1: permission denied''],
        events = [PageCountKnown 1, ProgressTick 1],
        saves = [\<lparr>sc_path = \<lparr>fp_dir = ''out'', fp_name = ''page_1.png''\<rparr>,
                  sc_image = \<lparr>img_mode = ''RGB'', img_size = (595, 842)\<rparr>,
                  sc_ok = False\<rparr>]\<rparr>"
proof -
  have a: "\<not> interruption_requested late_cancel_env 0"
    by code_simp
  have b: "render_page late_cancel_env 0 = Inr \<lparr>img_mode = ''RGB'', img_size = (595, 842)\<rparr>"
    by code_simp
  have c: "save late_cancel_env 0 = Some (OSError ''permission denied'')"
    by code_simp
  have v: "(loop_start 1)\<lparr>saves := saves (loop_start 1) @
                    [\<lparr>sc_path = output_image_path demo_worker 0,
                      sc_image = \<lparr>img_mode = ''RGB'', img_size = (595, 842)\<rparr>,
                      sc_ok = False\<rparr>],
                 page_save_errors := page_save_errors (loop_start 1) @
                    [''Page '' @ str_of_nat (0 + 1) @ '': '' @
                     exn_str (OSError ''permission denied'')],
                 events := events (loop_start 1) @ [ProgressTick (0 + 1)]\<rparr> =
       \<lparr>converted_count = 0, page_save_errors = [''Page 1: permission denied''],
        events = [PageCountKnown 1, ProgressTick 1],
        saves = [\<lparr>sc_path = \<lparr>fp_dir = ''out'', fp_name = ''page_1.png''\<rparr>,
                  sc_image = \<lparr>img_mode = ''RGB'', img_size = (595, 842)\<rparr>,
                  sc_ok = False\<rparr>]\<rparr>"
    by code_simp
  have d: "print_exn late_cancel_env 0 = None"
    by code_simp
  from save_failure_recorded [OF a b c d, of demo_worker "[]" "loop_start 1"]
  have "for_pages late_cancel_env demo_worker [0] (loop_start 1) =
     Exhausted
       \<lparr>converted_count = 0, page_save_errors = [''Page 1: permission denied''],
        events = [PageCountKnown 1, ProgressTick 1],
        saves = [\<lparr>sc_path = \<lparr>fp_dir = ''out'', fp_name = ''page_1.png''\<rparr>,
                  sc_image = \<lparr>img_mode = ''RGB'', img_size = (595, 842)\<rparr>,
                  sc_ok = False\<rparr>]\<rparr>"
    by (simp only: v for_pages.simps)
  with a b c show ?thesis by blast
qed

text \<open>
  Claim C4. The claim asks that the failed save of a page is recorded once, that the
  loop goes on, and that the failure never becomes a fatal error. The handler of line 76
  prints the failure (line 78) before it records it (line 79), and the \<open>print\<close> is
  not guarded. In the run below the save of page 2 raises and the \<open>print\<close> raises
  in turn: the failure of page 2 is not recorded, no tick 2 is emitted, page 3 is never
  attempted, and the run ends through the handler of line 83 with the fatal summary and
  an empty failure list.
\<close>

theorem print_failure_ends_run:
  "render_page broken_console_env 1 = Inr \<lparr>img_mode = ''RGB'', img_size = (595, 842)\<rparr> \<and>
   save broken_console_env 1 = Some (OSError ''disk full'') \<and>
   print_exn broken_console_env 1 = Some (OtherException ''ordinal not in range(128)'') \<and>
   run broken_console_env demo_worker =
     \<lparr>out_events =
        [PageCountKnown 3, ProgressTick 1,
         Finished ''Error processing PDF with PyMuPDF: ordinal not in range(128)'' False []],
      out_saves =
        [\<lparr>sc_path = \<lparr>fp_dir = ''out'', fp_name = ''page_1.png''\<rparr>,
          sc_image = \<lparr>img_mode = ''RGB'', img_size = (595, 842)\<rparr>, sc_ok = True\<rparr>,
         \<lparr>sc_path = \<lparr>fp_dir = ''out'', fp_name = ''page_2.png''\<rparr>,
          sc_image = \<lparr>img_mode = ''RGB'', img_size = (595, 842)\<rparr>, sc_ok = False\<rparr>],
      out_raised = None\<rparr>"
  by code_simp

subsection \<open>Exceptions\<close>

lemma emit_finished_raised: "out_raised (emit_finished st m s) = None"
  by (simp add: emit_finished_def)

lemma run_raised_setup_ok: "setup_ok e P \<Longrightarrow> out_raised (run e w) = None"
  using run_cases [of e P w]
  by (auto simp: emit_finished_raised after_loop_raised)

lemma run_raised:
  "out_raised (run e w) =
     (if path_exists e
      then (case makedirs e of
              Some (OtherException t) \<Rightarrow> Some (OtherException t)
            | _ \<Rightarrow> None)
      else None)"
proof (cases "\<exists>P. setup_ok e P")
  case True
  then obtain P where P: "setup_ok e P" ..
  then have "path_exists e" "makedirs e = None" by (simp_all add: setup_ok_def)
  with run_raised_setup_ok [OF P] show ?thesis by simp
next
  case False
  then have n: "\<And>P. fitz_open e = Inr P \<Longrightarrow> path_exists e \<Longrightarrow> makedirs e = None \<Longrightarrow> P = 0"
    by (auto simp: setup_ok_def)
  show ?thesis
  proof (cases "path_exists e")
    case False
    then show ?thesis by (simp add: run_def emit_finished_def)
  next
    case pe: True
    show ?thesis
    proof (cases "makedirs e")
      case (Some x)
      with pe show ?thesis
        by (cases x) (simp_all add: run_def emit_finished_def)
    next
      case None
      show ?thesis
      proof (cases "fitz_open e")
        case (Inl x)
        with pe None show ?thesis by (simp add: run_def emit_finished_def)
      next
        case (Inr P)
        with n pe None have "P = 0" by blast
        with Inr pe None show ?thesis by (simp add: run_def emit_finished_def)
      qed
    qed
  qed
qed

text \<open>
  Claim C7, with the handler of the directory creation as the code has it. An exception
  leaves \<open>run\<close> in one case only: the creation of the output directory raises an
  exception that is no \<open>OSError\<close>; it is not caught, and no signal is emitted. An
  \<open>OSError\<close> raised there is turned into the terminal signal with success false.
  An exception raised by opening the document is turned into the
  terminal signal with success false, the text of the exception in the summary and an
  empty failure list. An exception raised while page \<open>k\<close> is loaded, rasterized or
  converted is turned into the terminal signal with success false, the text of the
  exception in the summary and the failures of the pages before \<open>k\<close>; no later page
  is attempted and no tick beyond \<open>k\<close> is emitted.
\<close>

theorem exceptions_caught:
  "out_raised (run e w) =
     (if path_exists e
      then (case makedirs e of
              Some (OtherException t) \<Rightarrow> Some (OtherException t)
            | _ \<Rightarrow> None)
      else None) \<and>
   (path_exists e \<and> makedirs e = Some (OSError u) \<longrightarrow>
      run e w =
        \<lparr>out_events =
           [Finished (''Error creating output directory '' @ [CHR 0x27] @
                      output_directory w @ [CHR 0x27] @ '': '' @ u) False []],
         out_saves = [], out_raised = None\<rparr>) \<and>
   (path_exists e \<and> makedirs e = Some (OtherException u) \<longrightarrow>
      run e w = \<lparr>out_events = [], out_saves = [], out_raised = Some (OtherException u)\<rparr>) \<and>
   (path_exists e \<and> makedirs e = None \<and> fitz_open e = Inl x \<longrightarrow>
      run e w =
        \<lparr>out_events =
           [Finished (''Error processing PDF with PyMuPDF: '' @ exn_str x) False []],
         out_saves = [], out_raised = None\<rparr>) \<and>
   (setup_ok e P \<and> k < P \<and> loop_head e w P k = Some st \<and>
    \<not> interruption_requested e k \<and> render_page e k = Inl x \<longrightarrow>
      run e w =
        \<lparr>out_events = PageCountKnown P # ticks k @
           [Finished (''Error processing PDF with PyMuPDF: '' @ exn_str x) False
              (map (save_error e) (failed_pages e k))],
         out_saves = saves st, out_raised = None\<rparr> \<and>
      length (saves st) = k)"
proof (intro conjI impI)
  show "out_raised (run e w) =
     (if path_exists e
      then (case makedirs e of
              Some (OtherException t) \<Rightarrow> Some (OtherException t)
            | _ \<Rightarrow> None)
      else None)"
    by (rule run_raised)
next
  assume "path_exists e \<and> makedirs e = Some (OSError u)"
  then show "run e w =
        \<lparr>out_events =
           [Finished (''Error creating output directory '' @ [CHR 0x27] @
                      output_directory w @ [CHR 0x27] @ '': '' @ u) False []],
         out_saves = [], out_raised = None\<rparr>"
    by (simp add: run_def emit_finished_def start_state_def)
next
  assume "path_exists e \<and> makedirs e = Some (OtherException u)"
  then show "run e w =
        \<lparr>out_events = [], out_saves = [], out_raised = Some (OtherException u)\<rparr>"
    by (simp add: run_def)
next
  assume "path_exists e \<and> makedirs e = None \<and> fitz_open e = Inl x"
  then show "run e w =
        \<lparr>out_events =
           [Finished (''Error processing PDF with PyMuPDF: '' @ exn_str x) False []],
         out_saves = [], out_raised = None\<rparr>"
    by (simp add: run_def emit_finished_def start_state_def)
next
  assume h: "setup_ok e P \<and> k < P \<and> loop_head e w P k = Some st \<and>
    \<not> interruption_requested e k \<and> render_page e k = Inl x"
  then have a: "setup_ok e P" and b: "k < P" and c: "loop_head e w P k = Some st"
    and d: "\<not> interruption_requested e k" and f: "render_page e k = Inl x"
    by simp_all
  note s = loop_head_state [OF c]
  have "run e w =
          emit_finished st (''Error processing PDF with PyMuPDF: '' @ exn_str x) False"
    using loop_fatal [OF c b d f] by (simp add: run_setup_ok [OF a])
  then show "run e w =
        \<lparr>out_events = PageCountKnown P # ticks k @
           [Finished (''Error processing PDF with PyMuPDF: '' @ exn_str x) False
              (map (save_error e) (failed_pages e k))],
         out_saves = saves st, out_raised = None\<rparr>"
    using s(2,3) by (simp add: emit_finished_def)
  show "length (saves st) = k" by (rule s(4))
qed

lemma broken_head_2:
  "loop_head broken_page_env demo_worker 3 2 =
     Some \<lparr>converted_count = 1, page_save_errors = [''Page 2: disk full''],
       events = [PageCountKnown 3, ProgressTick 1, ProgressTick 2],
       saves = [\<lparr>sc_path = \<lparr>fp_dir = ''out'', fp_name = ''page_1.png''\<rparr>,
           sc_image = \<lparr>img_mode = ''RGB'', img_size = (595, 842)\<rparr>, sc_ok = True\<rparr>,
        \<lparr>sc_path = \<lparr>fp_dir = ''out'', fp_name = ''page_2.png''\<rparr>,
           sc_image = \<lparr>img_mode = ''RGB'', img_size = (595, 842)\<rparr>, sc_ok = False\<rparr>]\<rparr>"
  by code_simp

lemma broken_values:
  "setup_ok broken_page_env 3"
  "\<not> interruption_requested broken_page_env 2"
  "render_page broken_page_env 2 = Inl (OtherException ''cannot load page'')"
  "ticks 2 = [ProgressTick 1, ProgressTick 2]"
  "map (save_error broken_page_env) (failed_pages broken_page_env 2) = [''Page 2: disk full'']"
  "path_exists demo_env"
  "makedirs demo_env = None"
  by code_simp+

theorem exceptions_caught_witness:
  "path_exists (demo_env\<lparr>makedirs := Some (OSError ''read-only file system'')\<rparr>) \<and>
   makedirs (demo_env\<lparr>makedirs := Some (OSError ''read-only file system'')\<rparr>) =
     Some (OSError ''read-only file system'') \<and>
   run (demo_env\<lparr>makedirs := Some (OSError ''read-only file system'')\<rparr>) demo_worker =
     \<lparr>out_events =
        [Finished (''Error creating output directory '' @ [CHR 0x27] @ ''out'' @ [CHR 0x27] @
                   '': read-only file system'') False []],
      out_saves = [], out_raised = None\<rparr> \<and>
   path_exists nul_env \<and> makedirs nul_env = Some (OtherException ''embedded null byte'') \<and>
   run nul_env nul_worker =
     \<lparr>out_events = [], out_saves = [],
      out_raised = Some (OtherException ''embedded null byte'')\<rparr> \<and>
   path_exists (demo_env\<lparr>fitz_open := Inl (OtherException ''cannot open document'')\<rparr>) \<and>
   makedirs (demo_env\<lparr>fitz_open := Inl (OtherException ''cannot open document'')\<rparr>) = None \<and>
   fitz_open (demo_env\<lparr>fitz_open := Inl (OtherException ''cannot open document'')\<rparr>) =
     Inl (OtherException ''cannot open document'') \<and>
   run (demo_env\<lparr>fitz_open := Inl (OtherException ''cannot open document'')\<rparr>) demo_worker =
     \<lparr>out_events =
        [Finished ''Error processing PDF with PyMuPDF: cannot open document'' False []],
      out_saves = [], out_raised = None\<rparr> \<and>
   setup_ok broken_page_env 3 \<and> (2::nat) < 3 \<and>
   \<not> interruption_requested broken_page_env 2 \<and>
   render_page broken_page_env 2 = Inl (OtherException ''cannot load page'') \<and>
   out_events (run broken_page_env demo_worker) =
     [PageCountKnown 3, ProgressTick 1, ProgressTick 2,
      Finished ''Error processing PDF with PyMuPDF: cannot load page'' False
        [''Page 2: disk full'']] \<and>
   length (out_saves (run broken_page_env demo_worker)) = 2 \<and>
   out_raised (run broken_page_env demo_worker) = None"
proof -
  let ?d = "demo_env\<lparr>makedirs := Some (OSError ''read-only file system'')\<rparr>"
  let ?e = "demo_env\<lparr>fitz_open := Inl (OtherException ''cannot open document'')\<rparr>"
  have d: "path_exists ?d \<and> makedirs ?d = Some (OSError ''read-only file system'')"
    by (simp add: broken_values)
  have n: "path_exists nul_env \<and> makedirs nul_env = Some (OtherException ''embedded null byte'')"
    by (simp add: nul_env_def broken_values)
  have o: "path_exists ?e \<and> makedirs ?e = None \<and>
           fitz_open ?e = Inl (OtherException ''cannot open document'')"
    by (simp add: broken_values)
  have od: "output_directory demo_worker = ''out''" by code_simp
  have "run ?d demo_worker =
     \<lparr>out_events =
        [Finished (''Error creating output directory '' @ [CHR 0x27] @ ''out'' @ [CHR 0x27] @
                   '': read-only file system'') False []],
      out_saves = [], out_raised = None\<rparr>"
    using exceptions_caught [where e = ?d and w = demo_worker
        and u = "''read-only file system''"] d
    by (simp add: od)
  moreover have "run nul_env nul_worker =
     \<lparr>out_events = [], out_saves = [],
      out_raised = Some (OtherException ''embedded null byte'')\<rparr>"
    using exceptions_caught [where e = nul_env and w = nul_worker
        and u = "''embedded null byte''"] n
    by simp
  moreover have "run ?e demo_worker =
     \<lparr>out_events =
        [Finished ''Error processing PDF with PyMuPDF: cannot open document'' False []],
      out_saves = [], out_raised = None\<rparr>"
    using exceptions_caught [where e = ?e and w = demo_worker
        and x = "OtherException ''cannot open document''"] o
    by simp
  moreover have "run broken_page_env demo_worker =
        \<lparr>out_events = [PageCountKnown 3, ProgressTick 1, ProgressTick 2,
           Finished ''Error processing PDF with PyMuPDF: cannot load page'' False
             [''Page 2: disk full'']],
         out_saves = saves (the (loop_head broken_page_env demo_worker 3 2)),
         out_raised = None\<rparr> \<and>
        length (saves (the (loop_head broken_page_env demo_worker 3 2))) = 2"
    using exceptions_caught [where e = broken_page_env and w = demo_worker and P = 3 and k = 2
        and x = "OtherException ''cannot load page''"
        and st = "the (loop_head broken_page_env demo_worker 3 2)"]
    by (simp add: broken_values broken_head_2)
  ultimately show ?thesis using d n o by (simp add: broken_values)
qed

text \<open>
  Claim C7, where it does not hold as a statement on every failure: \<open>os.makedirs\<close>
  raises \<open>ValueError\<close> on a path with a NUL character; line 38 catches
  \<open>OSError\<close> only, so the exception leaves \<open>run\<close> and no signal is emitted.
\<close>

theorem exception_escapes_run:
  "path_exists nul_env \<and>
   makedirs nul_env = Some (OtherException ''embedded null byte'') \<and>
   out_raised (run nul_env nul_worker) = Some (OtherException ''embedded null byte'') \<and>
   out_events (run nul_env nul_worker) = []"
  by code_simp

subsection \<open>The terminal signal\<close>

text \<open>
  In every run the terminal signal is emitted at most once, and nothing follows it.
\<close>

lemma ticks_not_finished: "\<forall>ev\<in>set (PageCountKnown P # ticks k). \<not> is_finished ev"
  by (auto simp: ticks_def is_finished_def)

lemma finished_at_most_once_and_last:
  "\<exists>pre fin. out_events (run e w) = pre @ fin \<and> (\<forall>ev\<in>set pre. \<not> is_finished ev) \<and>
     (fin = [] \<or> (\<exists>m s f. fin = [Finished m s f]))"
proof (cases "\<exists>P. setup_ok e P")
  case True
  then obtain P where P: "setup_ok e P" ..
  from run_ends_at_boundary [OF P, of w] obtain k st fin where
    h: "loop_head e w P k = Some st" "out_events (run e w) = events st @ fin"
      "fin = [] \<or> (\<exists>m s. fin = [Finished m s (page_save_errors st)])"
    by blast
  note s = loop_head_state [OF h(1)]
  from h(2) s(3) have "out_events (run e w) = (PageCountKnown P # ticks k) @ fin"
    by simp
  with ticks_not_finished [of P k] h(3) show ?thesis by blast
next
  case False
  have "out_events (run e w) = [] \<or> (\<exists>m s f. out_events (run e w) = [Finished m s f])"
  proof (cases "path_exists e")
    case False
    then show ?thesis by (auto simp: run_def emit_finished_def start_state_def)
  next
    case pe: True
    show ?thesis
    proof (cases "makedirs e")
      case (Some x)
      with pe show ?thesis
        by (cases x) (auto simp: run_def emit_finished_def start_state_def)
    next
      case None
      show ?thesis
      proof (cases "fitz_open e")
        case (Inl x)
        with pe None show ?thesis by (auto simp: run_def emit_finished_def start_state_def)
      next
        case (Inr P)
        with False pe None have "P = 0" by (auto simp: setup_ok_def)
        with Inr pe None show ?thesis by (auto simp: run_def emit_finished_def start_state_def)
      qed
    qed
  qed
  then have "\<exists>fin. out_events (run e w) = [] @ fin \<and>
               (fin = [] \<or> (\<exists>m s f. fin = [Finished m s f]))"
    by auto
  then show ?thesis by fastforce
qed

lemma after_loop_emits:
  assumes "0 < P" and "\<not> interruption_requested e P"
  shows "\<exists>m s. after_loop e w P st = emit_finished st m s"
proof (cases "0 < converted_count st")
  case True
  then show ?thesis by (simp add: after_loop_def) blast
next
  case False
  with assms show ?thesis by (simp add: after_loop_def) blast
qed

text \<open>
  When no exception leaves the run and the flag is clear at the read of line 96 (if the
  run gets there), the terminal signal is emitted, once and last.
\<close>

lemma finished_exactly_once:
  assumes "out_raised (run e w) = None"
    and "\<forall>P. fitz_open e = Inr P \<longrightarrow> \<not> interruption_requested e P"
  shows "\<exists>pre m s f. out_events (run e w) = pre @ [Finished m s f] \<and>
           (\<forall>ev\<in>set pre. \<not> is_finished ev)"
proof (cases "\<exists>P. setup_ok e P")
  case True
  then obtain P where P: "setup_ok e P" ..
  then have o: "fitz_open e = Inr P" and pos: "0 < P" by (simp_all add: setup_ok_def)
  with assms(2) have nP: "\<not> interruption_requested e P" by blast
  from run_cases [OF P, of w] consider
    (cancelled) k st where "loop_head e w P k = Some st"
      "run e w = emit_finished st ''Conversion cancelled by user.'' False"
  | (raised) k st x st' where "loop_head e w P k = Some st"
      "process_page e w k st = Inl (x, st')"
      "run e w = emit_finished st'
                   (''Error processing PDF with PyMuPDF: '' @ exn_str x) False"
  | (exhausted) st where "loop_head e w P P = Some st" "run e w = after_loop e w P st"
    by blast
  then show ?thesis
  proof cases
    case cancelled
    note s = loop_head_state [OF cancelled(1)]
    have "out_events (run e w) =
            (PageCountKnown P # ticks k) @
            [Finished ''Conversion cancelled by user.'' False (page_save_errors st)]"
      using cancelled(2) s(3) by (simp add: emit_finished_def)
    with ticks_not_finished [of P k] show ?thesis by blast
  next
    case raised
    note s = loop_head_state [OF raised(1)]
    note f = process_page_Inl [OF raised(2)]
    have "out_events (run e w) =
            (PageCountKnown P # ticks k) @
            [Finished (''Error processing PDF with PyMuPDF: '' @ exn_str x) False
               (page_save_errors st')]"
      using raised(3) s(3) f(4) by (simp add: emit_finished_def)
    with ticks_not_finished [of P k] show ?thesis by blast
  next
    case exhausted
    note s = loop_head_state [OF exhausted(1)]
    from after_loop_emits [OF pos nP, of w st] obtain m s' where
      "after_loop e w P st = emit_finished st m s'" by blast
    with exhausted(2) s(3)
    have "out_events (run e w) =
            (PageCountKnown P # ticks P) @ [Finished m s' (page_save_errors st)]"
      by (simp add: emit_finished_def)
    with ticks_not_finished [of P P] show ?thesis by blast
  qed
next
  case False
  have "\<exists>m s f. out_events (run e w) = [] @ [Finished m s f]"
  proof (cases "path_exists e")
    case False
    then show ?thesis by (auto simp: run_def emit_finished_def start_state_def)
  next
    case pe: True
    show ?thesis
    proof (cases "makedirs e")
      case (Some x)
      show ?thesis
      proof (cases x)
        case (OSError t)
        with pe Some show ?thesis by (auto simp: run_def emit_finished_def start_state_def)
      next
        case (OtherException t)
        with pe Some have "out_raised (run e w) = Some (OtherException t)"
          by (simp add: run_def)
        with assms(1) show ?thesis by simp
      qed
    next
      case None
      show ?thesis
      proof (cases "fitz_open e")
        case (Inl x)
        with pe None show ?thesis by (auto simp: run_def emit_finished_def start_state_def)
      next
        case (Inr P)
        with False pe None have "P = 0" by (auto simp: setup_ok_def)
        with Inr pe None show ?thesis by (auto simp: run_def emit_finished_def start_state_def)
      qed
    qed
  qed
  then show ?thesis by fastforce
qed

text \<open>
  Claim C1. The claim asks for the terminal signal exactly once in every run. The run
  of \<open>late_cancel_env\<close> emits none: its only page is attempted, the save raises, so
  \<open>converted_count\<close> stays 0; the flag, clear when the loop read it, is set when line
  96 reads it, and both remaining branches of lines 96 to 102 are guarded by the flag
  being clear. The run ends after the tick, without a terminal signal and without an
  exception.
\<close>

theorem late_cancel_emits_no_finished:
  "setup_ok late_cancel_env 1 \<and>
   \<not> interruption_requested late_cancel_env 0 \<and>
   interruption_requested late_cancel_env 1 \<and>
   run late_cancel_env demo_worker =
     \<lparr>out_events = [PageCountKnown 1, ProgressTick 1],
      out_saves = [\<lparr>sc_path = \<lparr>fp_dir = ''out'', fp_name = ''page_1.png''\<rparr>,
                    sc_image = \<lparr>img_mode = ''RGB'', img_size = (595, 842)\<rparr>,
                    sc_ok = False\<rparr>],
      out_raised = None\<rparr>"
  by code_simp

subsection \<open>Output files\<close>

lemma digit_val_digit_char: "d < 10 \<Longrightarrow> digit_val (digit_char d) = d"
proof -
  assume "d < 10"
  then have "d = 0 \<or> d = 1 \<or> d = 2 \<or> d = 3 \<or> d = 4 \<or> d = 5 \<or> d = 6 \<or>
             d = 7 \<or> d = 8 \<or> d = 9"
    by arith
  then show ?thesis
    by (elim disjE) (simp_all add: digit_val_def digit_char_def)
qed

lemma nat_of_str_snoc: "nat_of_str (s @ [c]) = 10 * nat_of_str s + digit_val c"
  by (simp add: nat_of_str_def)

lemma nat_of_str_of_nat: "nat_of_str (str_of_nat n) = n"
proof (induction n rule: str_of_nat.induct)
  case (1 n)
  show ?case
  proof (cases "n < 10")
    case True
    then have "str_of_nat n = [digit_char n]"
      by (simp add: str_of_nat.simps)
    with True show ?thesis
      by (simp add: nat_of_str_def digit_val_digit_char)
  next
    case False
    then have "str_of_nat n = str_of_nat (n div 10) @ [digit_char (n mod 10)]"
      by (simp add: str_of_nat.simps)
    moreover have "nat_of_str (str_of_nat (n div 10)) = n div 10"
      using "1.IH" False by simp
    ultimately show ?thesis
      by (simp add: nat_of_str_snoc digit_val_digit_char)
  qed
qed

lemma str_of_nat_inj: "str_of_nat a = str_of_nat b \<Longrightarrow> a = b"
proof -
  assume "str_of_nat a = str_of_nat b"
  then have "nat_of_str (str_of_nat a) = nat_of_str (str_of_nat b)"
    by (rule arg_cong)
  then show "a = b" by (simp only: nat_of_str_of_nat)
qed

lemma output_image_path_inj: "inj_on (output_image_path w) A"
proof (rule inj_onI)
  fix i j
  assume "output_image_path w i = output_image_path w j"
  then have "output_filename w i = output_filename w j"
    by (simp add: output_image_path_def)
  then have "str_of_nat (i + 1) @ (''.'' @ image_format w) =
             str_of_nat (j + 1) @ (''.'' @ image_format w)"
    by (simp add: output_filename_def)
  then have "str_of_nat (i + 1) = str_of_nat (j + 1)"
    by (simp only: append_same_eq)
  then have "i + 1 = j + 1" by (rule str_of_nat_inj)
  then show "i = j" by simp
qed

lemma lower_char_not_upper: "\<not> is_upper (lower_char c)"
proof (cases "is_upper c")
  case False
  then show ?thesis by (simp add: lower_char_def)
next
  case True
  let ?n = "of_char c :: nat"
  from True have r: "(65 \<le> ?n \<and> ?n \<le> 90) \<or> (192 \<le> ?n \<and> ?n \<le> 222 \<and> ?n \<noteq> 215)"
    by (simp add: is_upper_def Let_def)
  then have "?n + 32 < 256" by auto
  then have "(of_char (char_of (?n + 32)) :: nat) = ?n + 32"
    by (simp add: of_char_of)
  with r True show ?thesis
    by (auto simp: lower_char_def is_upper_def Let_def)
qed

lemma run_saves_no_setup:
  assumes "\<not> (\<exists>P. setup_ok e P)"
  shows "out_saves (run e w) = []"
proof -
  note False = assms
  have "out_saves (run e w) = []"
  proof (cases "path_exists e")
    case False
    then show ?thesis by (simp add: run_def emit_finished_def start_state_def)
  next
    case pe: True
    show ?thesis
    proof (cases "makedirs e")
      case (Some x)
      with pe show ?thesis
        by (cases x) (simp_all add: run_def emit_finished_def start_state_def)
    next
      case None
      show ?thesis
      proof (cases "fitz_open e")
        case (Inl x)
        with pe None show ?thesis by (simp add: run_def emit_finished_def start_state_def)
      next
        case (Inr P)
        with False pe None have "P = 0" by (auto simp: setup_ok_def)
        with Inr pe None show ?thesis by (simp add: run_def emit_finished_def start_state_def)
      qed
    qed
  qed
  then show ?thesis .
qed

text \<open>
  The save calls of a run are those of the loop boundary at which it ends and, when the
  \<open>print\<close> of a failed save raised, that failed call.
\<close>

lemma run_files:
  "files_written (run e w) =
     map (output_image_path w) (saved_pages e (length (out_saves (run e w))))"
proof (cases "\<exists>P. setup_ok e P")
  case True
  then obtain P where P: "setup_ok e P" ..
  from run_ends_at_boundary [OF P, of w] obtain k st extra where
    h: "loop_head e w P k = Some st" "out_saves (run e w) = saves st @ extra"
      "extra = [] \<or>
         (save e k \<noteq> None \<and>
          (\<exists>img. render_page e k = Inr img \<and>
             extra = [\<lparr>sc_path = output_image_path w k, sc_image = img, sc_ok = False\<rparr>]))"
    by blast
  note s = loop_head_state [OF h(1)]
  have f: "files_written (run e w) = map (output_image_path w) (saved_pages e k)"
    by (rule files_written_boundary [OF h])
  from h(3) show ?thesis
  proof
    assume "extra = []"
    with h(2) s(4) have "length (out_saves (run e w)) = k" by simp
    with f show ?thesis by simp
  next
    assume x: "save e k \<noteq> None \<and>
          (\<exists>img. render_page e k = Inr img \<and>
             extra = [\<lparr>sc_path = output_image_path w k, sc_image = img, sc_ok = False\<rparr>])"
    with h(2) s(4) have "length (out_saves (run e w)) = Suc k" by auto
    moreover from x have "saved_pages e (Suc k) = saved_pages e k"
      by (simp add: saved_pages_def)
    ultimately show ?thesis using f by simp
  qed
next
  case False
  then have "out_saves (run e w) = []" by (rule run_saves_no_setup)
  then show ?thesis by (simp add: files_written_def saved_pages_def)
qed

lemma run_saves_mode: "\<forall>c\<in>set (out_saves (run e w)). img_mode (sc_image c) = ''RGB''"
proof (cases "\<exists>P. setup_ok e P")
  case True
  then obtain P where P: "setup_ok e P" ..
  from run_ends_at_boundary [OF P, of w] obtain k st extra where
    h: "loop_head e w P k = Some st" "out_saves (run e w) = saves st @ extra"
      "extra = [] \<or>
         (save e k \<noteq> None \<and>
          (\<exists>img. render_page e k = Inr img \<and>
             extra = [\<lparr>sc_path = output_image_path w k, sc_image = img, sc_ok = False\<rparr>]))"
    by blast
  from h(3) have "\<forall>c\<in>set extra. img_mode (sc_image c) = ''RGB''"
    by (auto dest: render_page_mode)
  with loop_head_saves(2) [OF h(1)] h(2) show ?thesis by auto
next
  case False
  then have "out_saves (run e w) = []" by (rule run_saves_no_setup)
  then show ?thesis by simp
qed

lemma saved_pages_distinct: "distinct (saved_pages e k)"
  by (simp add: saved_pages_def)

text \<open>
  Claim C8. Let the worker be built by \<open>__init__\<close> from any format string
  \<open>fmt\<close>, and let \<open>k\<close> be the number of pages a run attempts. The files the run
  writes are, in order, one for each page \<open>i < k\<close> whose save returns: the file
  \<open>page_<i+1>.<ext>\<close> in the output directory, where \<open>ext\<close> is \<open>fmt\<close> in lower
  case, which holds no upper-case letter whatever \<open>fmt\<close> is. These files are pairwise
  different, so each such page has exactly one.
\<close>

theorem output_files:
  "files_written (run e (init_worker ip od d fmt)) =
     map (\<lambda>i. \<lparr>fp_dir = od, fp_name = ''page_'' @ str_of_nat (i + 1) @ ''.'' @ lower fmt\<rparr>)
       (saved_pages e (length (out_saves (run e (init_worker ip od d fmt))))) \<and>
   distinct (files_written (run e (init_worker ip od d fmt))) \<and>
   (\<forall>c\<in>set (lower fmt). \<not> is_upper c)"
proof -
  let ?w = "init_worker ip od d fmt"
  let ?k = "length (out_saves (run e ?w))"
  have p: "output_image_path ?w =
        (\<lambda>i. \<lparr>fp_dir = od, fp_name = ''page_'' @ str_of_nat (i + 1) @ ''.'' @ lower fmt\<rparr>)"
    by (simp add: output_image_path_def output_filename_def init_worker_def fun_eq_iff)
  have f: "files_written (run e ?w) = map (output_image_path ?w) (saved_pages e ?k)"
    by (rule run_files)
  have "distinct (map (output_image_path ?w) (saved_pages e ?k))"
    by (simp only: distinct_map saved_pages_distinct output_image_path_inj simp_thms)
  with f have "distinct (files_written (run e ?w))" by simp
  moreover have "\<forall>c\<in>set (lower fmt). \<not> is_upper c"
    by (auto simp: lower_def lower_char_not_upper)
  ultimately show ?thesis using f p by simp
qed

theorem output_files_witness:
  "files_written (run demo_env demo_worker) =
     [\<lparr>fp_dir = ''out'', fp_name = ''page_1.png''\<rparr>,
      \<lparr>fp_dir = ''out'', fp_name = ''page_3.png''\<rparr>] \<and>
   distinct (files_written (run demo_env demo_worker)) \<and>
   CHR ''p'' \<in> set (lower ''PNG'') \<and> \<not> is_upper (CHR ''p'')"
proof -
  note t = output_files [of demo_env "''in.pdf''" "''out''" 150 "''PNG''",
      folded demo_worker_def]
  have v: "length (out_saves (run demo_env demo_worker)) = 3"
    "saved_pages demo_env 3 = [0, 2]"
    "str_of_nat (Suc 0) = ''1''" "str_of_nat 3 = ''3''" "lower ''PNG'' = ''png''"
    by code_simp+
  from t show ?thesis by (simp add: v)
qed

text \<open>
  Claim C9. Every image handed to the save, in any run, is in mode \<open>RGB\<close>, never
  \<open>RGBA\<close>; a pixmap that carries an alpha channel is wrapped as \<open>RGBA\<close> and then
  converted to \<open>RGB\<close> before it is saved.
\<close>

theorem alpha_flattened:
  "(\<forall>c\<in>set (out_saves (run e w)).
      img_mode (sc_image c) = ''RGB'' \<and> img_mode (sc_image c) \<noteq> ''RGBA'') \<and>
   (get_pixmap e i = Inr pix \<and> pix_alpha pix \<and> frombytes_exn e i = None \<and>
    convert_exn e i = None \<longrightarrow>
      frombytes e i ''RGBA'' pix =
        Inr \<lparr>img_mode = ''RGBA'', img_size = (pix_width pix, pix_height pix)\<rparr> \<and>
      render_page e i =
        Inr \<lparr>img_mode = ''RGB'', img_size = (pix_width pix, pix_height pix)\<rparr>)"
proof -
  have "\<forall>c\<in>set (out_saves (run e w)). img_mode (sc_image c) = ''RGB''"
    by (rule run_saves_mode)
  then have "\<forall>c\<in>set (out_saves (run e w)).
      img_mode (sc_image c) = ''RGB'' \<and> img_mode (sc_image c) \<noteq> ''RGBA''"
    by simp
  moreover have "get_pixmap e i = Inr pix \<and> pix_alpha pix \<and> frombytes_exn e i = None \<and>
    convert_exn e i = None \<longrightarrow>
      frombytes e i ''RGBA'' pix =
        Inr \<lparr>img_mode = ''RGBA'', img_size = (pix_width pix, pix_height pix)\<rparr> \<and>
      render_page e i =
        Inr \<lparr>img_mode = ''RGB'', img_size = (pix_width pix, pix_height pix)\<rparr>"
    by (simp add: render_page_def frombytes_def convert_def)
  ultimately show ?thesis by blast
qed

theorem alpha_flattened_witness:
  "out_saves (run demo_env demo_worker) ! 2 \<in> set (out_saves (run demo_env demo_worker)) \<and>
   img_mode (sc_image (out_saves (run demo_env demo_worker) ! 2)) = ''RGB'' \<and>
   get_pixmap demo_env 2 = Inr \<lparr>pix_alpha = True, pix_width = 595, pix_height = 842\<rparr> \<and>
   pix_alpha \<lparr>pix_alpha = True, pix_width = 595, pix_height = 842\<rparr> \<and>
   frombytes_exn demo_env 2 = None \<and> convert_exn demo_env 2 = None \<and>
   render_page demo_env 2 = Inr \<lparr>img_mode = ''RGB'', img_size = (595, 842)\<rparr>"
proof -
  let ?pix = "\<lparr>pix_alpha = True, pix_width = 595, pix_height = 842\<rparr>"
  note t = alpha_flattened [of demo_env demo_worker 2 ?pix]
  have l: "length (out_saves (run demo_env demo_worker)) = 3" by code_simp
  then have m: "out_saves (run demo_env demo_worker) ! 2 \<in>
                set (out_saves (run demo_env demo_worker))"
    by simp
  with t have a: "img_mode (sc_image (out_saves (run demo_env demo_worker) ! 2)) = ''RGB''"
    by blast
  have g: "get_pixmap demo_env 2 = Inr ?pix" "frombytes_exn demo_env 2 = None"
    "convert_exn demo_env 2 = None"
    by (simp_all add: demo_env_def)
  with t have "render_page demo_env 2 = Inr \<lparr>img_mode = ''RGB'', img_size = (595, 842)\<rparr>"
    by simp
  with m a g show ?thesis by simp
qed

end
